theory Spec2Isabelle
  imports Main "HOL-Library.Word"
begin

section \<open>Shared vocabulary\<close>

text \<open>
  A non-nil Go \<open>error\<close> is represented by the text of its \<open>Error()\<close> method; a nilable
  error is an \<open>error option\<close> with \<open>None\<close> for \<open>nil\<close>.  A call either returns a value,
  returns an error, or panics.
\<close>

type_synonym error = string

datatype 'a result = Ok 'a | Err error | Panic string

text \<open>
  A \<open>context.Context\<close> is kept symbolically: the background context, or a context derived
  from a parent with a timeout (a \<open>time.Duration\<close>).
\<close>

datatype Context = Background | WithTimeout Context int

section \<open>Configuration (internal/config/config.go)\<close>

record DBInstanceConfig =
  Host :: string
  Port :: int
  Username :: string
  Password :: string
  Database :: string
  Charset :: string
  ParseTime :: bool
  Loc :: string
  SSLMode :: string

record DatabaseConfig =
  Name :: string
  Type :: string
  MaxIdleConns :: int
  MaxOpenConns :: int
  ConnMaxLifetime :: int
  ConnMaxIdleTime :: int
  LogLevel :: string
  SlowThreshold :: int
  Master :: DBInstanceConfig
  Slaves :: "DBInstanceConfig list"

record HealthConfig =
  Timeout :: int
  Detailed :: bool

section \<open>The world outside the program\<close>

text \<open>
  The database servers, the \<open>database/sql\<close> runtime and the log sink are not part of the
  repository.  Their answers are fields of a \<open>World\<close>: for every dialector whether
  \<open>gorm.Open\<close> fails, and for every pool whether \<open>DB()\<close>, \<open>Exec\<close>, \<open>PingContext\<close> and
  \<open>Close\<close> fail.  A pool is identified by a number, fresh for every successful
  \<open>gorm.Open\<close> (the identity of the \<open>*sql.DB\<close> behind a \<open>*gorm.DB\<close>).  The remaining fields
  are what the program changes: the number of pools opened, the limits set on each pool,
  the pools on which \<open>Close\<close> was called, the warnings logged and the lines printed.
\<close>

datatype Dialector = mysql_Open string | postgres_Open string | sqlite_Open string

record PoolLimits =
  lim_MaxIdleConns :: int
  lim_MaxOpenConns :: int
  lim_ConnMaxLifetime :: int
  lim_ConnMaxIdleTime :: int

record World =
  Open_err :: "Dialector \<Rightarrow> error option"
  DB_err :: "nat \<Rightarrow> error option"
  Exec_err :: "nat \<Rightarrow> string \<Rightarrow> error option"
  Ping_err :: "nat \<Rightarrow> error option"
  Close_err :: "nat \<Rightarrow> error option"
  opened :: nat
  limits :: "nat \<rightharpoonup> PoolLimits"
  closed :: "nat list"
  warnings :: "string list"
  stdout :: "string list"

text \<open>A \<open>*gorm.DB\<close> handle: the pool behind it and the context of its session.\<close>

record GormDB =
  ConnPool :: nat
  Ctx :: Context

definition gorm_Open :: "Dialector \<Rightarrow> World \<Rightarrow> (error + GormDB) \<times> World" where
  "gorm_Open dialector w =
     (case Open_err w dialector of
        Some err \<Rightarrow> (Inl err, w)
      | None \<Rightarrow> (Inr \<lparr>ConnPool = opened w, Ctx = Background\<rparr>, w\<lparr>opened := Suc (opened w)\<rparr>))"

definition WithContext :: "GormDB \<Rightarrow> Context \<Rightarrow> GormDB" where
  "WithContext db ctx = db\<lparr>Ctx := ctx\<rparr>"

definition GormDB_DB :: "World \<Rightarrow> GormDB \<Rightarrow> error + nat" where
  "GormDB_DB w db = (case DB_err w (ConnPool db) of Some err \<Rightarrow> Inl err | None \<Rightarrow> Inr (ConnPool db))"

definition Exec :: "World \<Rightarrow> GormDB \<Rightarrow> string \<Rightarrow> error option" where
  "Exec w db sql = Exec_err w (ConnPool db) sql"

definition PingContext :: "World \<Rightarrow> nat \<Rightarrow> Context \<Rightarrow> error option" where
  "PingContext w sqlDB ctx = Ping_err w sqlDB"

definition sqlDB_Close :: "nat \<Rightarrow> World \<Rightarrow> error option \<times> World" where
  "sqlDB_Close sqlDB w = (Close_err w sqlDB, w\<lparr>closed := closed w @ [sqlDB]\<rparr>)"

definition Warn :: "string \<Rightarrow> World \<Rightarrow> World" where
  "Warn msg w = w\<lparr>warnings := warnings w @ [msg]\<rparr>"

definition Printf :: "string \<Rightarrow> World \<Rightarrow> World" where
  "Printf line w = w\<lparr>stdout := stdout w @ [line]\<rparr>"

text \<open>The four pool setters called in a row on a \<open>*sql.DB\<close> by \<open>New\<close>.\<close>

definition set_pool_limits :: "DatabaseConfig \<Rightarrow> nat \<Rightarrow> World \<Rightarrow> World" where
  "set_pool_limits cfg sqlDB w =
     w\<lparr>limits := (limits w)(sqlDB \<mapsto>
          \<lparr>lim_MaxIdleConns = MaxIdleConns cfg, lim_MaxOpenConns = MaxOpenConns cfg,
           lim_ConnMaxLifetime = ConnMaxLifetime cfg, lim_ConnMaxIdleTime = ConnMaxIdleTime cfg\<rparr>)\<rparr>"

text \<open>Decimal and boolean formatting of \<open>fmt.Sprintf\<close> (\<open>%d\<close>, \<open>%t\<close>).\<close>

fun digits :: "nat \<Rightarrow> string" where
  "digits n = (if n < 10 then [''0123456789'' ! n] else digits (n div 10) @ [''0123456789'' ! (n mod 10)])"

declare digits.simps [simp del]

definition itoa :: "int \<Rightarrow> string" where
  "itoa i = (if i < 0 then ''-'' @ digits (nat (- i)) else digits (nat i))"

definition btoa :: "bool \<Rightarrow> string" where
  "btoa b = (if b then ''true'' else ''false'')"

section \<open>Database instance (internal/database/database.go)\<close>

record Database =
  name :: string
  config :: DatabaseConfig
  master :: GormDB
  slaves :: "GormDB list"
  slaveIndex :: "32 word"

definition Database_Master :: "Database \<Rightarrow> Context \<Rightarrow> GormDB" where
  "Database_Master d ctx = WithContext (master d) ctx"

text \<open>
  \<open>Slave\<close> changes the counter of the instance, so it returns the instance as well.
  \<open>Add(1)\<close> returns the new value of the \<open>atomic.Uint32\<close>; \<open>uint32(len(d.slaves))\<close>
  truncates the length, and a remainder by zero panics.
\<close>

definition Database_Slave :: "Database \<Rightarrow> Context \<Rightarrow> (GormDB \<times> Database) result" where
  "Database_Slave d ctx =
     (if length (slaves d) = 0 then Ok (WithContext (master d) ctx, d)
      else
        let c = slaveIndex d + 1;
            n = (of_nat (length (slaves d)) :: 32 word);
            d' = d\<lparr>slaveIndex := c\<rparr>
        in if n = 0 then Panic ''runtime error: integer divide by zero''
           else
             let index = c mod n
             in if unat index < length (slaves d)
                then Ok (WithContext (slaves d ! unat index) ctx, d')
                else Panic ''runtime error: index out of range'')"

definition Database_Name :: "Database \<Rightarrow> string" where
  "Database_Name d = name d"

text \<open>A single caller issuing \<open>Slave\<close> once per context of a list, one call after the other.\<close>

fun Slave_calls :: "Database \<Rightarrow> Context list \<Rightarrow> (GormDB list \<times> Database) result" where
  "Slave_calls d [] = Ok ([], d)"
| "Slave_calls d (ctx # ctxs) =
     (case Database_Slave d ctx of
        Ok (h, d') \<Rightarrow>
          (case Slave_calls d' ctxs of
             Ok (hs, d'') \<Rightarrow> Ok (h # hs, d'')
           | Err e \<Rightarrow> Err e
           | Panic p \<Rightarrow> Panic p)
      | Err e \<Rightarrow> Err e
      | Panic p \<Rightarrow> Panic p)"

text \<open>The pools behind the handles such a caller receives, in call order.\<close>

definition visited :: "Database \<Rightarrow> Context list \<Rightarrow> nat list" where
  "visited d ctxs = (case Slave_calls d ctxs of Ok (hs, d') \<Rightarrow> map ConnPool hs | Err e \<Rightarrow> [] | Panic p \<Rightarrow> [])"

section \<open>Health checks (internal/health/health.go)\<close>

text \<open>
  A probe of a checker returns a nilable error or panics.  \<open>HealthChecker\<close> is an
  interface: a value of it carries its name and its two probes, which read the world.
\<close>

datatype probe = Returns "error option" | Panics string

record HealthChecker =
  hc_Name :: string
  hc_Ping :: "World \<Rightarrow> Context \<Rightarrow> probe"
  hc_Check :: "World \<Rightarrow> Context \<Rightarrow> probe"

record health_Manager =
  checkers :: "string \<rightharpoonup> HealthChecker"
  health_config :: HealthConfig

definition health_NewManager :: "HealthConfig \<Rightarrow> health_Manager" where
  "health_NewManager cfg = \<lparr>checkers = Map.empty, health_config = cfg\<rparr>"

definition health_Manager_Register :: "health_Manager \<Rightarrow> HealthChecker \<Rightarrow> error option \<times> health_Manager" where
  "health_Manager_Register m checker =
     (None, m\<lparr>checkers := (checkers m)(hc_Name checker \<mapsto> checker)\<rparr>)"

record CheckResult =
  cr_Status :: string
  cr_Message :: string

record HealthStatus =
  Status :: string
  Timestamp :: string
  Checks :: "string \<rightharpoonup> CheckResult"

text \<open>What one task does with the error of its probe, under the mutex.\<close>

definition record_result :: "string \<Rightarrow> error option \<Rightarrow> HealthStatus \<Rightarrow> HealthStatus" where
  "record_result nm err status =
     (case err of
        Some e \<Rightarrow>
          status\<lparr>Checks := (Checks status)(nm \<mapsto> \<lparr>cr_Status = ''error'', cr_Message = e\<rparr>),
                 Status := ''error''\<rparr>
      | None \<Rightarrow>
          status\<lparr>Checks := (Checks status)(nm \<mapsto> \<lparr>cr_Status = ''ok'', cr_Message = []\<rparr>)\<rparr>)"

text \<open>
  The tasks of one round.  One goroutine is started per entry of the map; \<open>order\<close> lists
  the names in the order in which their tasks finish (a permutation of the registered names; a
  name that is not registered has no task).  A task whose probe returns records its result
  under the mutex.  No task recovers from a panic: a task whose probe panics records
  nothing, still runs its deferred \<open>wg.Done()\<close>, and the runtime then ends the process.
  \<open>fan_out\<close> gives the status the tasks leave behind and the panic that ends the process,
  if there is one.
\<close>

fun fan_out :: "(HealthChecker \<Rightarrow> probe) \<Rightarrow> (string \<rightharpoonup> HealthChecker) \<Rightarrow> string list
    \<Rightarrow> HealthStatus \<Rightarrow> HealthStatus \<times> string option" where
  "fan_out run cs [] status = (status, None)"
| "fan_out run cs (nm # order) status =
     (case cs nm of
        None \<Rightarrow> fan_out run cs order status
      | Some checker \<Rightarrow>
          (case run checker of
             Panics p \<Rightarrow> (fst (fan_out run cs order status), Some p)
           | Returns err \<Rightarrow> fan_out run cs order (record_result nm err status)))"

text \<open>
  What the caller of a round gets.  \<open>wg.Wait()\<close> returns once every task has called
  \<open>wg.Done()\<close>.  Without a panic the call returns the status.  After a panic the waiting
  call races with the exit of the runtime: either the call still returns the status
  (\<open>wait_first\<close>) and the process ends right after, or the process ends before the call
  returns.
\<close>

datatype round = Completed HealthStatus | Returned_then_crashed HealthStatus string | Crashed string

definition join :: "bool \<Rightarrow> HealthStatus \<times> string option \<Rightarrow> round" where
  "join wait_first r =
     (case r of
        (status, None) \<Rightarrow> Completed status
      | (status, Some p) \<Rightarrow> if wait_first then Returned_then_crashed status p else Crashed p)"

text \<open>\<open>now\<close> is \<open>time.Now().Format(time.RFC3339)\<close>.\<close>

definition health_Manager_Ping :: "health_Manager \<Rightarrow> World \<Rightarrow> Context \<Rightarrow> string \<Rightarrow> string list
    \<Rightarrow> bool \<Rightarrow> round" where
  "health_Manager_Ping m w ctx now order wait_first =
     (let checkCtx = WithTimeout ctx (Timeout (health_config m));
          status = \<lparr>Status = ''ok'', Timestamp = now, Checks = Map.empty\<rparr>
      in if dom (checkers m) = {} then Completed status
         else join wait_first
                (fan_out (\<lambda>checker. hc_Ping checker w checkCtx) (checkers m) order status))"

definition health_Manager_Check :: "health_Manager \<Rightarrow> World \<Rightarrow> Context \<Rightarrow> string \<Rightarrow> string list
    \<Rightarrow> bool \<Rightarrow> round" where
  "health_Manager_Check m w ctx now order wait_first =
     (let checkCtx = WithTimeout ctx (Timeout (health_config m));
          status = \<lparr>Status = ''ok'', Timestamp = now, Checks = Map.empty\<rparr>
      in if dom (checkers m) = {} then Completed status
         else join wait_first
                (fan_out (\<lambda>checker. hc_Check checker w checkCtx) (checkers m) order status))"

definition getStatusCode :: "string \<Rightarrow> int" where
  "getStatusCode status = (if status = ''ok'' then 200 else 503)"

section \<open>Construction and shutdown of a database instance\<close>

definition DatabaseHealthChecker_Ping :: "GormDB \<Rightarrow> World \<Rightarrow> Context \<Rightarrow> probe" where
  "DatabaseHealthChecker_Ping db w ctx =
     (case GormDB_DB w db of
        Inl err \<Rightarrow> Returns (Some (''failed to get sql.DB: '' @ err))
      | Inr sqlDB \<Rightarrow>
          (case PingContext w sqlDB ctx of
             Some err \<Rightarrow> Returns (Some (''database ping failed: '' @ err))
           | None \<Rightarrow> Returns None))"

definition DatabaseHealthChecker_Check :: "GormDB \<Rightarrow> World \<Rightarrow> Context \<Rightarrow> probe" where
  "DatabaseHealthChecker_Check db w ctx =
     (case GormDB_DB w db of
        Inl err \<Rightarrow> Returns (Some (''failed to get sql.DB: '' @ err))
      | Inr sqlDB \<Rightarrow>
          (case PingContext w sqlDB ctx of
             Some err \<Rightarrow> Returns (Some (''database ping failed: '' @ err))
           | None \<Rightarrow>
               (case Exec w (WithContext db ctx) ''SELECT 1'' of
                  Some err \<Rightarrow> Returns (Some (''database query failed: '' @ err))
                | None \<Rightarrow> Returns None)))"

definition DatabaseHealthChecker :: "string \<Rightarrow> GormDB \<Rightarrow> HealthChecker" where
  "DatabaseHealthChecker nm db =
     \<lparr>hc_Name = nm, hc_Ping = DatabaseHealthChecker_Ping db, hc_Check = DatabaseHealthChecker_Check db\<rparr>"

text \<open>
  \<open>connect\<close>: the switch over the driver type builds the data source name.  The GORM
  configuration passed to \<open>gorm.Open\<close> carries only the logger adapter, which writes log
  records and is left out.
\<close>

definition connect :: "DatabaseConfig \<Rightarrow> DBInstanceConfig \<Rightarrow> World \<Rightarrow> (error + GormDB) \<times> World" where
  "connect cfg inst w =
     (if Type cfg = ''mysql'' then
        gorm_Open (mysql_Open (Username inst @ '':'' @ Password inst @ ''@tcp('' @ Host inst @ '':''
          @ itoa (Port inst) @ '')/'' @ Database inst @ ''?charset='' @ Charset inst
          @ ''&parseTime='' @ btoa (ParseTime inst) @ ''&loc='' @ Loc inst)) w
      else if Type cfg = ''postgres'' then
        gorm_Open (postgres_Open (''host='' @ Host inst @ '' port='' @ itoa (Port inst)
          @ '' user='' @ Username inst @ '' password='' @ Password inst
          @ '' dbname='' @ Database inst @ '' sslmode='' @ SSLMode inst)) w
      else if Type cfg = ''sqlite'' then
        gorm_Open (sqlite_Open (Database inst)) w
      else (Inl (''unsupported database type: '' @ Type cfg), w))"

text \<open>
  The loop of \<open>New\<close> over \<open>cfg.Slaves\<close>: \<open>i\<close> is the index of the next entry and
  \<open>acc\<close> the slaves appended so far.  The error of \<open>slave.DB()\<close> is dropped by the
  source; when there is one the \<open>*sql.DB\<close> is nil and the first setter called on it
  dereferences a nil pointer.
\<close>

fun connect_slaves :: "DatabaseConfig \<Rightarrow> nat \<Rightarrow> DBInstanceConfig list \<Rightarrow> GormDB list \<Rightarrow> World
    \<Rightarrow> (GormDB list) result \<times> World" where
  "connect_slaves cfg i [] acc w = (Ok acc, w)"
| "connect_slaves cfg i (slaveCfg # rest) acc w =
     (case connect cfg slaveCfg w of
        (Inl err, w1) \<Rightarrow>
          connect_slaves cfg (Suc i) rest acc
            (Warn (''failed to connect to slave database '' @ itoa (int i) @ '': '' @ err) w1)
      | (Inr slave, w1) \<Rightarrow>
          (case GormDB_DB w1 slave of
             Inl err \<Rightarrow> (Panic ''runtime error: invalid memory address or nil pointer dereference'', w1)
           | Inr slaveSQLDB \<Rightarrow>
               connect_slaves cfg (Suc i) rest (acc @ [slave]) (set_pool_limits cfg slaveSQLDB w1)))"

text \<open>
  \<open>New\<close> changes the world and, through \<open>Register\<close>, the health manager it is given
  (\<open>None\<close> is the nil pointer); both are returned with the result.
\<close>

definition New :: "DatabaseConfig \<Rightarrow> World \<Rightarrow> health_Manager option
    \<Rightarrow> Database result \<times> World \<times> health_Manager option" where
  "New cfg w healthMgr =
     (case connect cfg (Master cfg) w of
        (Inl err, w1) \<Rightarrow> (Err (''failed to connect to master database: '' @ err), w1, healthMgr)
      | (Inr mst, w1) \<Rightarrow>
          (case GormDB_DB w1 mst of
             Inl err \<Rightarrow> (Err (''failed to get sql.DB: '' @ err), w1, healthMgr)
           | Inr sqlDB \<Rightarrow>
               (case connect_slaves cfg 0 (Slaves cfg) [] (set_pool_limits cfg sqlDB w1) of
                  (Panic p, w2) \<Rightarrow> (Panic p, w2, healthMgr)
                | (Err e, w2) \<Rightarrow> (Err e, w2, healthMgr)
                | (Ok slvs, w2) \<Rightarrow>
                    let db = \<lparr>name = Name cfg, config = cfg, master = mst, slaves = slvs, slaveIndex = 0\<rparr>
                    in (case Exec w2 (WithContext mst Background) ''SELECT 1'' of
                          Some err \<Rightarrow>
                            (Err (''failed to verify database connection: '' @ err), w2, healthMgr)
                        | None \<Rightarrow>
                            (case healthMgr of
                               None \<Rightarrow> (Ok db, w2, None)
                             | Some hm \<Rightarrow>
                                 (Ok db, w2,
                                  Some (snd (health_Manager_Register hm
                                               (DatabaseHealthChecker (Name cfg) mst)))))))))"

definition Database_Close :: "Database \<Rightarrow> World \<Rightarrow> error option \<times> World" where
  "Database_Close d w =
     (let close_one = (\<lambda>db w. case GormDB_DB w db of
                                  Inr sqlDB \<Rightarrow> snd (sqlDB_Close sqlDB w)
                                | Inl err \<Rightarrow> w);
          w1 = close_one (master d) w;
          w2 = fold close_one (slaves d) w1
      in (None, w2))"

section \<open>Database manager (internal/database/manager.go)\<close>

record Manager =
  databases :: "string \<rightharpoonup> Database"

fun NewManager_loop :: "DatabaseConfig list \<Rightarrow> Manager \<Rightarrow> World \<Rightarrow> health_Manager option
    \<Rightarrow> Manager result \<times> World \<times> health_Manager option" where
  "NewManager_loop [] mgr w healthMgr = (Ok mgr, w, healthMgr)"
| "NewManager_loop (cfg # rest) mgr w healthMgr =
     (case New cfg w healthMgr of
        (Err err, w1, h1) \<Rightarrow>
          (Err (''failed to initialize database '' @ Name cfg @ '': '' @ err), w1, h1)
      | (Panic p, w1, h1) \<Rightarrow> (Panic p, w1, h1)
      | (Ok db, w1, h1) \<Rightarrow>
          NewManager_loop rest (mgr\<lparr>databases := (databases mgr)(Name cfg \<mapsto> db)\<rparr>) w1 h1)"

definition NewManager :: "DatabaseConfig list \<Rightarrow> World \<Rightarrow> health_Manager option
    \<Rightarrow> Manager result \<times> World \<times> health_Manager option" where
  "NewManager configs w healthMgr = NewManager_loop configs \<lparr>databases = Map.empty\<rparr> w healthMgr"

definition Manager_Get :: "Manager \<Rightarrow> string \<Rightarrow> Database option" where
  "Manager_Get m nm = databases m nm"

text \<open>
  \<open>Close\<close> ranges over the map in an order of its keys that Go leaves open, given as
  \<open>order\<close>.
\<close>

definition Manager_Close :: "Manager \<Rightarrow> string list \<Rightarrow> World \<Rightarrow> error option \<times> World" where
  "Manager_Close m order w =
     (None,
      fold (\<lambda>nm w. case databases m nm of
                      None \<Rightarrow> w
                    | Some db \<Rightarrow>
                        (case Database_Close db w of
                           (Some err, w') \<Rightarrow>
                             Printf (''Warning: failed to close database '' @ Database_Name db
                                     @ '': '' @ err @ [CHR 0x0A]) w'
                         | (None, w') \<Rightarrow> w'))
           order w)"

section \<open>Vocabulary of the properties\<close>

text \<open>
  What a task records for a probe: a result with status \<open>ok\<close> or \<open>error\<close>, and nothing
  when the probe panics.  \<open>failing\<close> collects the registered names whose probe returns
  an error, \<open>returning\<close> those whose probe returns at all, \<open>panicking\<close> those whose probe
  panics, and \<open>names_with_status\<close> the names recorded with a given status.
\<close>

definition recorded :: "probe \<Rightarrow> CheckResult option" where
  "recorded pr = (case pr of
      Returns None \<Rightarrow> Some \<lparr>cr_Status = ''ok'', cr_Message = []\<rparr>
    | Returns (Some e) \<Rightarrow> Some \<lparr>cr_Status = ''error'', cr_Message = e\<rparr>
    | Panics p \<Rightarrow> None)"

definition failing :: "(HealthChecker \<Rightarrow> probe) \<Rightarrow> (string \<rightharpoonup> HealthChecker) \<Rightarrow> string set" where
  "failing run cs = {nm. \<exists>c e. cs nm = Some c \<and> run c = Returns (Some e)}"

definition returning :: "(HealthChecker \<Rightarrow> probe) \<Rightarrow> (string \<rightharpoonup> HealthChecker) \<Rightarrow> string set" where
  "returning run cs = {nm. \<exists>c err. cs nm = Some c \<and> run c = Returns err}"

definition panicking :: "(HealthChecker \<Rightarrow> probe) \<Rightarrow> (string \<rightharpoonup> HealthChecker) \<Rightarrow> string set" where
  "panicking run cs = {nm. \<exists>c p. cs nm = Some c \<and> run c = Panics p}"

definition names_with_status :: "HealthStatus \<Rightarrow> string \<Rightarrow> string set" where
  "names_with_status st s = {nm. \<exists>r. Checks st nm = Some r \<and> cr_Status r = s}"

text \<open>
  \<open>returned\<close> is the status the caller of a round receives, if the call returns, and
  \<open>crash\<close> the panic that ends the process, if there is one.
\<close>

definition returned :: "round \<Rightarrow> HealthStatus option" where
  "returned r = (case r of Completed st \<Rightarrow> Some st | Returned_then_crashed st p \<Rightarrow> Some st
                 | Crashed p \<Rightarrow> None)"

definition crash :: "round \<Rightarrow> string option" where
  "crash r = (case r of Completed st \<Rightarrow> None | Returned_then_crashed st p \<Rightarrow> Some p
              | Crashed p \<Rightarrow> Some p)"

text \<open>
  \<open>connects\<close> says that \<open>connect\<close> succeeds for an endpoint in a world.  Two worlds
  have the \<open>same_backend\<close> when the servers answer alike in both; only the bookkeeping of the
  program may differ.
\<close>

definition connects :: "DatabaseConfig \<Rightarrow> World \<Rightarrow> DBInstanceConfig \<Rightarrow> bool" where
  "connects cfg w inst = (case fst (connect cfg inst w) of Inl err \<Rightarrow> False | Inr db \<Rightarrow> True)"

definition same_backend :: "World \<Rightarrow> World \<Rightarrow> bool" where
  "same_backend w w' = (Open_err w' = Open_err w \<and> DB_err w' = DB_err w \<and> Exec_err w' = Exec_err w
      \<and> Ping_err w' = Ping_err w \<and> Close_err w' = Close_err w)"

section \<open>Example inputs\<close>

definition example_instance :: "string \<Rightarrow> DBInstanceConfig" where
  "example_instance h =
     \<lparr>Host = h, Port = 3306, Username = ''app'', Password = ''secret'', Database = ''app'',
      Charset = ''utf8mb4'', ParseTime = True, Loc = ''Local'', SSLMode = ''disable''\<rparr>"

definition example_config :: "string \<Rightarrow> string list \<Rightarrow> DatabaseConfig" where
  "example_config nm hosts =
     \<lparr>Name = nm, Type = ''mysql'', MaxIdleConns = 10, MaxOpenConns = 100,
      ConnMaxLifetime = 3600, ConnMaxIdleTime = 600, LogLevel = ''warn'', SlowThreshold = 200,
      Master = example_instance (nm @ ''-master''), Slaves = map example_instance hosts\<rparr>"

text \<open>An instance with \<open>n\<close> slaves on the pools \<open>1, \<dots>, n\<close> and the master on pool \<open>0\<close>.\<close>

definition example_db :: "nat \<Rightarrow> Database" where
  "example_db n =
     \<lparr>name = ''main'', config = example_config ''main'' [],
      master = \<lparr>ConnPool = 0, Ctx = Background\<rparr>,
      slaves = map (\<lambda>p. \<lparr>ConnPool = Suc p, Ctx = Background\<rparr>) [0..<n],
      slaveIndex = 0\<rparr>"

text \<open>
  A world in which every server answers, and worlds in which some hosts refuse the connection,
  every query fails, or every \<open>Close\<close> fails.
\<close>

definition example_world :: World where
  "example_world =
     \<lparr>Open_err = (\<lambda>d. None), DB_err = (\<lambda>p. None), Exec_err = (\<lambda>p q. None),
      Ping_err = (\<lambda>p. None), Close_err = (\<lambda>p. None), opened = 0, limits = Map.empty,
      closed = [], warnings = [], stdout = []\<rparr>"

definition example_dsn :: "string \<Rightarrow> Dialector" where
  "example_dsn h = mysql_Open (''app:secret@tcp('' @ h @ '':3306)/app?charset=utf8mb4&parseTime=true&loc=Local'')"

definition unreachable :: "string list \<Rightarrow> World" where
  "unreachable hosts =
     example_world\<lparr>Open_err := (\<lambda>d. if d \<in> set (map example_dsn hosts)
                                      then Some ''dial tcp: connection refused'' else None)\<rparr>"

definition gone_away :: World where
  "gone_away = example_world\<lparr>Exec_err := (\<lambda>p q. Some ''server has gone away'')\<rparr>"

definition close_fails :: World where
  "close_fails = example_world\<lparr>Close_err := (\<lambda>p. Some ''close failed'')\<rparr>"

text \<open>
  A checker whose two probes give a fixed outcome; a health manager with the checkers
  \<open>a\<close>, \<open>b\<close> and \<open>c\<close>, of which \<open>b\<close> has the given outcome and the others succeed.
\<close>

definition stub_checker :: "string \<Rightarrow> probe \<Rightarrow> HealthChecker" where
  "stub_checker nm pr = \<lparr>hc_Name = nm, hc_Ping = (\<lambda>w ctx. pr), hc_Check = (\<lambda>w ctx. pr)\<rparr>"

definition example_health :: "probe \<Rightarrow> health_Manager" where
  "example_health pr =
     snd (health_Manager_Register
       (snd (health_Manager_Register
         (snd (health_Manager_Register (health_NewManager \<lparr>Timeout = 5, Detailed = True\<rparr>)
                (stub_checker ''a'' (Returns None))))
         (stub_checker ''b'' pr)))
       (stub_checker ''c'' (Returns None)))"

definition example_health_manager :: health_Manager where
  "example_health_manager = health_NewManager \<lparr>Timeout = 5, Detailed = True\<rparr>"

section \<open>Round-robin selection of slaves\<close>

subsection \<open>One call and a sequence of calls\<close>

lemma Database_Slave_step:
  assumes "0 < length (slaves d)" "length (slaves d) < 2 ^ 32"
  shows "Database_Slave d ctx =
     Ok (WithContext (slaves d ! (unat (slaveIndex d + 1) mod length (slaves d))) ctx,
         d\<lparr>slaveIndex := slaveIndex d + 1\<rparr>)"
proof -
  let ?N = "length (slaves d)"
  have n: "unat (of_nat ?N :: 32 word) = ?N"
    using assms(2) by (simp add: unat_of_nat)
  have nz: "(of_nat ?N :: 32 word) \<noteq> 0"
    using n assms(1) by (metis less_numeral_extra(3) unat_0) 
  have idx: "unat ((slaveIndex d + 1) mod (of_nat ?N :: 32 word)) = unat (slaveIndex d + 1) mod ?N"
    by (simp add: unat_mod n)
  have lt: "unat (slaveIndex d + 1) mod ?N < ?N"
    using assms(1) by simp
  show ?thesis
    using assms(1) nz lt by (simp add: Database_Slave_def Let_def idx)
qed

lemma Slave_calls_closed:
  assumes "0 < length (slaves d)" "length (slaves d) < 2 ^ 32"
  shows "Slave_calls d ctxs =
     Ok (map (\<lambda>i. WithContext (slaves d ! (unat (slaveIndex d + of_nat (Suc i)) mod length (slaves d))) (ctxs ! i))
             [0..<length ctxs],
         d\<lparr>slaveIndex := slaveIndex d + of_nat (length ctxs)\<rparr>)"
  using assms
proof (induction ctxs arbitrary: d)
  case Nil
  then show ?case by simp
next
  case (Cons ctx ctxs)
  let ?d' = "d\<lparr>slaveIndex := slaveIndex d + 1\<rparr>"
  have s: "slaves ?d' = slaves d" by simp
  have step: "Database_Slave d ctx =
     Ok (WithContext (slaves d ! (unat (slaveIndex d + 1) mod length (slaves d))) ctx, ?d')"
    using Cons.prems by (rule Database_Slave_step)
  have ih: "Slave_calls ?d' ctxs =
     Ok (map (\<lambda>i. WithContext (slaves ?d' ! (unat (slaveIndex ?d' + of_nat (Suc i)) mod length (slaves ?d'))) (ctxs ! i))
             [0..<length ctxs],
         ?d'\<lparr>slaveIndex := slaveIndex ?d' + of_nat (length ctxs)\<rparr>)"
    using Cons.prems by (intro Cons.IH) simp_all
  show ?case
    apply (simp only: Slave_calls.simps step ih result.case prod.case s length_Cons)
    apply (simp only: upt_conv_Cons [of 0 "Suc (length ctxs)"] zero_less_Suc list.map map_Suc_upt [symmetric] map_map comp_def)
    apply (simp add: add.assoc)
    done
qed

lemma visited_closed:
  assumes "0 < length (slaves d)" "length (slaves d) < 2 ^ 32"
  shows "visited d ctxs =
     map (\<lambda>i. ConnPool (slaves d ! (unat (slaveIndex d + of_nat (Suc i)) mod length (slaves d))))
         [0..<length ctxs]"
  by (simp add: visited_def Slave_calls_closed [OF assms] WithContext_def comp_def)

lemma unat_counter:
  assumes "n < 2 ^ 32"
  shows "unat (of_nat n :: 32 word) = n"
  using assms by (simp add: unat_of_nat)

subsection \<open>Counting residues\<close>

lemma residue_once:
  assumes "j < N"
  shows "length (filter (\<lambda>i. Suc i mod N = j) [0..<N]) = 1"
proof -
  have "{i. i < N \<and> Suc i mod N = j} = {if j = 0 then N - 1 else j - 1}"
    using assms by (auto simp: mod_Suc split: if_splits)
  moreover have "length (filter (\<lambda>i. Suc i mod N = j) [0..<N]) = card ({i. Suc i mod N = j} \<inter> set [0..<N])"
    by (rule distinct_length_filter) simp
  moreover have "{i. Suc i mod N = j} \<inter> set [0..<N] = {i. i < N \<and> Suc i mod N = j}"
    by auto
  ultimately show ?thesis by simp
qed

lemma residue_count:
  assumes "j < N"
  shows "length (filter (\<lambda>i. Suc i mod N = j) [0..<k * N]) = k"
proof (induction k)
  case 0
  then show ?case by simp
next
  case (Suc k)
  have a: "[0..<Suc k * N] = [0..<k * N] @ [k * N..<k * N + N]"
    using upt_add_eq_append [of 0 "k * N" N] by (simp add: add.commute)
  have b: "[k * N..<k * N + N] = map (\<lambda>i. i + k * N) [0..<N]"
    by (simp only: map_add_upt add.commute)
  have c: "length (filter (\<lambda>i. Suc i mod N = j) (map (\<lambda>i. i + k * N) [0..<N]))
         = length (filter (\<lambda>i. Suc i mod N = j) [0..<N])"
    unfolding filter_map length_map comp_def
    by (rule arg_cong [where f = length], rule filter_cong) (simp_all flip: add_Suc)
  show ?case
    unfolding a b filter_append length_append c Suc.IH residue_once [OF assms] by simp
qed

lemma count_list_map_filter:
  "count_list (map f xs) y = length (filter (\<lambda>x. f x = y) xs)"
  by (induction xs) simp_all

subsection \<open>The example instances\<close>

lemma example_db_slaves:
  "length (slaves (example_db n)) = n"
  "i < n \<Longrightarrow> ConnPool (slaves (example_db n) ! i) = Suc i"
  "slaveIndex (example_db n) = 0"
  by (simp_all add: example_db_def)

lemma visited_example:
  assumes "0 < n" "n < 2 ^ 32"
  shows "visited (example_db n) ctxs = map (\<lambda>i. Suc (unat (of_nat (Suc i) :: 32 word) mod n)) [0..<length ctxs]"
proof -
  have "visited (example_db n) ctxs =
     map (\<lambda>i. ConnPool (slaves (example_db n) ! (unat (of_nat (Suc i) :: 32 word) mod n))) [0..<length ctxs]"
    using visited_closed [of "example_db n" ctxs] assms by (simp only: example_db_slaves add_0)
  also have "\<dots> = map (\<lambda>i. Suc (unat (of_nat (Suc i) :: 32 word) mod n)) [0..<length ctxs]"
    using assms(1) by (simp add: example_db_slaves)
  finally show ?thesis .
qed

lemma visited_7: "visited (example_db 7) (replicate m Background) = map (\<lambda>i. Suc (unat (of_nat (Suc i) :: 32 word) mod 7)) [0..<m]"
  using visited_example [of 7 "replicate m Background"] by simp

section \<open>Health aggregation\<close>

lemma fan_out_Checks:
  "Checks (fst (fan_out run cs order st0)) =
     (\<lambda>nm. if nm \<in> set order \<and> nm \<in> returning run cs then recorded (run (the (cs nm)))
           else Checks st0 nm)"
proof (induction order arbitrary: st0)
  case Nil
  then show ?case by simp
next
  case (Cons nm order)
  show ?case
  proof (cases "cs nm")
    case None
    then have "nm \<notin> returning run cs" by (simp add: returning_def)
    then show ?thesis using None Cons.IH [of st0] by (auto simp: fun_eq_iff)
  next
    case (Some c)
    show ?thesis
    proof (cases "run c")
      case (Panics p)
      then have "nm \<notin> returning run cs" using Some by (simp add: returning_def)
      then show ?thesis using Some Panics Cons.IH [of st0] by (auto simp: fun_eq_iff)
    next
      case (Returns err)
      then have r: "nm \<in> returning run cs" using Some by (auto simp: returning_def)
      have "Checks (record_result nm err st0) = (Checks st0)(nm \<mapsto> the (recorded (Returns err)))"
        by (cases err) (simp_all add: record_result_def recorded_def)
      moreover have "recorded (Returns err) \<noteq> None" by (cases err) (simp_all add: recorded_def)
      ultimately show ?thesis
        using Some Returns r Cons.IH [of "record_result nm err st0"] by (auto simp: fun_eq_iff)
    qed
  qed
qed

lemma fan_out_Status:
  "Status (fst (fan_out run cs order st0)) =
     (if set order \<inter> failing run cs = {} then Status st0 else ''error'')"
proof (induction order arbitrary: st0)
  case Nil
  then show ?case by simp
next
  case (Cons nm order)
  show ?case
  proof (cases "cs nm")
    case None
    then have "nm \<notin> failing run cs" by (simp add: failing_def)
    then show ?thesis using None Cons.IH [of st0] by simp
  next
    case (Some c)
    show ?thesis
    proof (cases "run c")
      case (Panics p)
      then have "nm \<notin> failing run cs" using Some by (simp add: failing_def)
      then show ?thesis using Some Panics Cons.IH [of st0] by simp
    next
      case (Returns err)
      show ?thesis
      proof (cases err)
        case None
        then have "nm \<notin> failing run cs" using Some Returns by (simp add: failing_def)
        moreover have "Status (record_result nm err st0) = Status st0"
          using None by (simp add: record_result_def)
        ultimately show ?thesis using Some Returns Cons.IH [of "record_result nm err st0"] by simp
      next
        case (Some e)
        then have "nm \<in> failing run cs" using \<open>cs nm = Some c\<close> Returns by (auto simp: failing_def)
        moreover have "Status (record_result nm err st0) = ''error''"
          using Some by (simp add: record_result_def)
        ultimately show ?thesis
          using \<open>cs nm = Some c\<close> Returns Cons.IH [of "record_result nm err st0"] by auto
      qed
    qed
  qed
qed

lemma fan_out_Timestamp:
  "Timestamp (fst (fan_out run cs order st0)) = Timestamp st0"
proof (induction order arbitrary: st0)
  case Nil
  then show ?case by simp
next
  case (Cons nm order)
  show ?case
  proof (cases "cs nm")
    case None
    then show ?thesis using Cons.IH by simp
  next
    case (Some c)
    show ?thesis
    proof (cases "run c")
      case (Panics p)
      then show ?thesis using Some Cons.IH by simp
    next
      case (Returns err)
      have "Timestamp (record_result nm err st0) = Timestamp st0"
        by (cases err) (simp_all add: record_result_def)
      then show ?thesis using Some Returns Cons.IH [of "record_result nm err st0"] by simp
    qed
  qed
qed

lemma fan_out_panic:
  "(snd (fan_out run cs order st0) = None) = (set order \<inter> panicking run cs = {})"
proof (induction order arbitrary: st0)
  case Nil
  then show ?case by simp
next
  case (Cons nm order)
  show ?case
  proof (cases "cs nm")
    case None
    then have "nm \<notin> panicking run cs" by (simp add: panicking_def)
    then show ?thesis using None Cons.IH [of st0] by simp
  next
    case (Some c)
    show ?thesis
    proof (cases "run c")
      case (Panics p)
      then have "nm \<in> panicking run cs" using Some by (auto simp: panicking_def)
      then show ?thesis using Some Panics by auto
    next
      case (Returns err)
      then have "nm \<notin> panicking run cs" using Some by (simp add: panicking_def)
      then show ?thesis using Some Returns Cons.IH [of "record_result nm err st0"] by simp
    qed
  qed
qed

lemma join_simps:
  "returned (join b r) = (if snd r = None \<or> b then Some (fst r) else None)"
  "crash (join b r) = snd r"
  "(join b r = Completed st) = (snd r = None \<and> fst r = st)"
  by (cases r; cases "snd r"; auto simp: join_def returned_def crash_def)+

lemma returned_simps:
  "returned (Completed st) = Some st" "returned (Returned_then_crashed st p) = Some st"
  "returned (Crashed p) = None"
  "crash (Completed st) = None" "crash (Returned_then_crashed st p) = Some p" "crash (Crashed p) = Some p"
  by (simp_all add: returned_def crash_def)

lemma round_eq_join:
  assumes "set order = dom cs"
  shows "(if dom cs = {} then Completed init else join b (fan_out run cs order init))
       = join b (fan_out run cs order init)"
  using assms by (cases order) (auto simp: join_def)

lemma returning_panicking:
  "returning run cs \<union> panicking run cs = dom cs" "returning run cs \<inter> panicking run cs = {}"
  "failing run cs \<subseteq> returning run cs"
proof -
  show "returning run cs \<union> panicking run cs = dom cs"
  proof (rule set_eqI)
    fix nm
    show "(nm \<in> returning run cs \<union> panicking run cs) = (nm \<in> dom cs)"
    proof (cases "cs nm")
      case None
      then show ?thesis by (simp add: returning_def panicking_def domIff)
    next
      case (Some c)
      then show ?thesis by (cases "run c") (auto simp: returning_def panicking_def)
    qed
  qed
  show "returning run cs \<inter> panicking run cs = {}"
    by (auto simp: returning_def panicking_def)
  show "failing run cs \<subseteq> returning run cs"
    by (auto simp: returning_def failing_def)
qed

lemma panicking_remove:
  "panicking run cs = {} \<Longrightarrow> panicking run (cs(f := None)) = {}"
  by (auto simp: panicking_def split: if_splits)

lemma panicking_empty_iff:
  "(panicking run cs = {}) = (\<forall>nm c. cs nm = Some c \<longrightarrow> (\<exists>err. run c = Returns err))"
proof
  assume e: "panicking run cs = {}"
  show "\<forall>nm c. cs nm = Some c \<longrightarrow> (\<exists>err. run c = Returns err)"
  proof (intro allI impI)
    fix nm c assume c: "cs nm = Some c"
    show "\<exists>err. run c = Returns err"
    proof (cases "run c")
      case (Returns err)
      then show ?thesis by blast
    next
      case (Panics p)
      then have "nm \<in> panicking run cs" using c by (auto simp: panicking_def)
      then show ?thesis using e by simp
    qed
  qed
next
  assume "\<forall>nm c. cs nm = Some c \<longrightarrow> (\<exists>err. run c = Returns err)"
  then show "panicking run cs = {}" by (fastforce simp: panicking_def)
qed

lemma panicking_nonempty_iff:
  "(panicking run cs \<noteq> {}) = (\<exists>nm c p. cs nm = Some c \<and> run c = Panics p)"
  by (auto simp: panicking_def)

lemma round_returned:
  assumes ord: "set order = dom cs"
    and run: "returned (if dom cs = {} then Completed init else join b (fan_out run cs order init)) = Some st"
    and init: "Checks init = Map.empty" "Status init = ''ok''"
  shows "Checks st = (\<lambda>nm. case cs nm of None \<Rightarrow> None | Some c \<Rightarrow> recorded (run c))"
    and "Status st = (if failing run cs = {} then ''ok'' else ''error'')"
    and "Timestamp st = Timestamp init"
proof -
  have st: "st = fst (fan_out run cs order init)"
    using run unfolding round_eq_join [OF ord] by (simp add: join_simps split: if_splits)
  have sub: "returning run cs \<subseteq> dom cs" using returning_panicking(1) [of run cs] by blast
  show "Checks st = (\<lambda>nm. case cs nm of None \<Rightarrow> None | Some c \<Rightarrow> recorded (run c))"
  proof (rule ext)
    fix nm
    show "Checks st nm = (case cs nm of None \<Rightarrow> None | Some c \<Rightarrow> recorded (run c))"
    proof (cases "cs nm")
      case None
      then have "nm \<notin> returning run cs" by (simp add: returning_def)
      then show ?thesis using None by (simp add: st fan_out_Checks init(1))
    next
      case (Some c)
      then have o: "nm \<in> set order" using ord by blast
      show ?thesis
      proof (cases "run c")
        case (Returns err)
        then have "nm \<in> returning run cs" using Some by (auto simp: returning_def)
        then show ?thesis using Some o by (simp add: st fan_out_Checks)
      next
        case (Panics p)
        then have "nm \<notin> returning run cs" using Some by (simp add: returning_def)
        then show ?thesis using Some Panics by (simp add: st fan_out_Checks init(1) recorded_def)
      qed
    qed
  qed
  have "failing run cs \<subseteq> dom cs" by (auto simp: failing_def)
  then have "set order \<inter> failing run cs = failing run cs" using ord by auto
  then show "Status st = (if failing run cs = {} then ''ok'' else ''error'')"
    by (simp add: st fan_out_Status init(2))
  show "Timestamp st = Timestamp init" by (simp add: st fan_out_Timestamp)
qed

lemma round_Completed:
  assumes ord: "set order = dom cs"
    and run: "(if dom cs = {} then Completed init else join b (fan_out run cs order init)) = Completed st"
  shows "panicking run cs = {}" and "returning run cs = dom cs"
    and "returned (if dom cs = {} then Completed init else join b (fan_out run cs order init)) = Some st"
proof -
  have "snd (fan_out run cs order init) = None"
    using run unfolding round_eq_join [OF ord] by (simp add: join_simps)
  then have "set order \<inter> panicking run cs = {}" by (simp add: fan_out_panic)
  moreover have "panicking run cs \<subseteq> dom cs" by (auto simp: panicking_def)
  ultimately show p: "panicking run cs = {}" unfolding ord by blast
  show "returning run cs = dom cs" using returning_panicking(1) [of run cs] p by simp
  show "returned (if dom cs = {} then Completed init else join b (fan_out run cs order init)) = Some st"
    by (simp only: run) (simp add: returned_def)
qed

lemma round_no_panic:
  assumes ord: "set order = dom cs" and np: "panicking run cs = {}"
  shows "(if dom cs = {} then Completed init else join b (fan_out run cs order init))
       = Completed (fst (fan_out run cs order init))"
proof -
  have "snd (fan_out run cs order init) = None" using np by (simp add: fan_out_panic)
  then show ?thesis unfolding round_eq_join [OF ord] by (simp add: join_simps)
qed

lemma round_panic:
  assumes ord: "set order = dom cs" and p: "panicking run cs \<noteq> {}"
  shows "\<exists>q. crash (if dom cs = {} then Completed init else join b (fan_out run cs order init)) = Some q"
    and "returned (if dom cs = {} then Completed init else join False (fan_out run cs order init)) = None"
    and "returned (if dom cs = {} then Completed init else join True (fan_out run cs order init))
           = Some (fst (fan_out run cs order init))"
proof -
  have "panicking run cs \<subseteq> dom cs" by (auto simp: panicking_def)
  then have "set order \<inter> panicking run cs \<noteq> {}" using ord p by auto
  then have s: "snd (fan_out run cs order init) \<noteq> None" by (simp add: fan_out_panic)
  show "\<exists>q. crash (if dom cs = {} then Completed init else join b (fan_out run cs order init)) = Some q"
    unfolding round_eq_join [OF ord] using s by (simp add: join_simps)
  show "returned (if dom cs = {} then Completed init else join False (fan_out run cs order init)) = None"
    unfolding round_eq_join [OF ord] using s by (simp add: join_simps)
  show "returned (if dom cs = {} then Completed init else join True (fan_out run cs order init))
           = Some (fst (fan_out run cs order init))"
    unfolding round_eq_join [OF ord] by (simp add: join_simps)
qed

lemma round_dom:
  assumes ord: "set order = dom cs"
    and run: "returned (if dom cs = {} then Completed init else join b (fan_out run cs order init)) = Some st"
    and init: "Checks init = Map.empty" "Status init = ''ok''"
  shows "dom (Checks st) = returning run cs"
proof (rule set_eqI)
  note p = round_returned [OF ord run init]
  fix nm
  show "(nm \<in> dom (Checks st)) = (nm \<in> returning run cs)"
  proof (cases "cs nm")
    case None
    then show ?thesis by (simp add: p(1) domIff returning_def)
  next
    case (Some c)
    then show ?thesis
      by (cases "run c") (auto simp: p(1) domIff returning_def recorded_def split: option.splits)
  qed
qed

lemma round_statuses:
  assumes ord: "set order = dom cs"
    and run: "returned (if dom cs = {} then Completed init else join b (fan_out run cs order init)) = Some st"
    and init: "Checks init = Map.empty" "Status init = ''ok''"
  shows "names_with_status st ''error'' = failing run cs"
    and "names_with_status st ''ok'' = returning run cs - failing run cs"
proof -
  note p = round_returned [OF ord run init]
  have rec: "Checks st nm = Some r \<longleftrightarrow>
      (\<exists>c. cs nm = Some c \<and> ((run c = Returns None \<and> r = \<lparr>cr_Status = ''ok'', cr_Message = []\<rparr>)
          \<or> (\<exists>e. run c = Returns (Some e) \<and> r = \<lparr>cr_Status = ''error'', cr_Message = e\<rparr>)))" for nm r
    by (auto simp: p(1) recorded_def split: option.splits probe.splits)
  show "names_with_status st ''error'' = failing run cs"
    by (auto simp: names_with_status_def failing_def rec)
  show "names_with_status st ''ok'' = returning run cs - failing run cs"
  proof (rule set_eqI)
    fix nm
    show "(nm \<in> names_with_status st ''ok'') = (nm \<in> returning run cs - failing run cs)"
    proof (cases "cs nm")
      case None
      then show ?thesis by (simp add: names_with_status_def rec returning_def)
    next
      case (Some c)
      show ?thesis
      proof (cases "run c")
        case (Panics q)
        then show ?thesis using Some by (simp add: names_with_status_def rec returning_def)
      next
        case (Returns err)
        then show ?thesis using Some
          by (cases err) (auto simp: names_with_status_def rec failing_def returning_def)
      qed
    qed
  qed
qed

lemma round_ok_iff:
  assumes ord: "set order = dom cs"
    and run: "returned (if dom cs = {} then Completed init else join b (fan_out run cs order init)) = Some st"
    and init: "Checks init = Map.empty" "Status init = ''ok''"
  shows "(Status st = ''ok'') = (\<forall>nm r. Checks st nm = Some r \<longrightarrow> cr_Status r = ''ok'')"
proof -
  note p = round_returned [OF ord run init]
  note s = round_statuses [OF ord run init]
  have "(\<forall>nm r. Checks st nm = Some r \<longrightarrow> cr_Status r = ''ok'') = (names_with_status st ''error'' = {})"
  proof
    assume a: "\<forall>nm r. Checks st nm = Some r \<longrightarrow> cr_Status r = ''ok''"
    show "names_with_status st ''error'' = {}"
      using a by (auto simp: names_with_status_def)
  next
    assume e: "names_with_status st ''error'' = {}"
    show "\<forall>nm r. Checks st nm = Some r \<longrightarrow> cr_Status r = ''ok''"
    proof (intro allI impI)
      fix nm r assume c: "Checks st nm = Some r"
      then have "nm \<in> dom (Checks st)" by blast
      then have "nm \<in> returning run cs" using round_dom [OF ord run init] by simp
      moreover have "nm \<notin> failing run cs" using e s(1) by simp
      ultimately have "nm \<in> names_with_status st ''ok''" using s(2) by simp
      then show "cr_Status r = ''ok''" using c by (simp add: names_with_status_def)
    qed
  qed
  then show ?thesis using p(2) s(1) by simp
qed

lemma round_three:
  assumes ord: "set order = dom cs"
    and run: "(if dom cs = {} then Completed init else join b (fan_out run cs order init)) = Completed st"
    and init: "Checks init = Map.empty" "Status init = ''ok''"
    and three: "card (dom cs) = 3" and one: "card (failing run cs) = 1"
  shows "Status st = ''error'' \<and> card (names_with_status st ''error'') = 1
       \<and> card (names_with_status st ''ok'') = 2"
proof -
  note c = round_Completed [OF ord run]
  note p = round_returned [OF ord c(3) init]
  note s = round_statuses [OF ord c(3) init]
  have ne: "failing run cs \<noteq> {}" using one by auto
  have fin: "finite (failing run cs)" using one by (metis card.infinite zero_neq_one)
  have sub: "failing run cs \<subseteq> dom cs" by (auto simp: failing_def)
  have "card (dom cs - failing run cs) = card (dom cs) - card (failing run cs)"
    using fin sub by (rule card_Diff_subset)
  then show ?thesis using p(2) s ne three one c(2) by simp
qed

lemma round_isolated:
  assumes ord: "set order = dom cs"
    and init: "Checks init = Map.empty" "Status init = ''ok''"
    and r: "returned (if dom cs = {} then Completed init else join b (fan_out run cs order init)) = Some st"
    and r': "returned (if dom (cs(f := None)) = {} then Completed init
                       else join b' (fan_out run (cs(f := None)) (removeAll f order) init)) = Some st'"
  shows "\<forall>nm. nm \<noteq> f \<longrightarrow> Checks st nm = Checks st' nm"
proof -
  have ord': "set (removeAll f order) = dom (cs(f := None))"
    using ord by auto
  show ?thesis
    by (simp add: round_returned(1) [OF ord r init] round_returned(1) [OF ord' r' init])
qed

lemma initial_status:
  "Checks \<lparr>Status = ''ok'', Timestamp = now, Checks = Map.empty\<rparr> = Map.empty"
  "Status \<lparr>Status = ''ok'', Timestamp = now, Checks = Map.empty\<rparr> = ''ok''"
  by simp_all

lemma round_facts:
  fixes run :: "HealthChecker \<Rightarrow> probe" and now :: string
  assumes ord: "set order = dom (checkers m)"
  defines "R \<equiv> \<lambda>cs order b. (if dom cs = {} then Completed \<lparr>Status = ''ok'', Timestamp = now, Checks = Map.empty\<rparr>
      else join b (fan_out run cs order \<lparr>Status = ''ok'', Timestamp = now, Checks = Map.empty\<rparr>))"
  shows ok_iff: "returned (R (checkers m) order b) = Some st \<Longrightarrow>
            (Status st = ''ok'') = (\<forall>nm r. Checks st nm = Some r \<longrightarrow> cr_Status r = ''ok'')"
    and three: "R (checkers m) order b = Completed st \<Longrightarrow> card (dom (checkers m)) = 3 \<Longrightarrow> card (failing run (checkers m)) = 1
            \<Longrightarrow> Status st = ''error'' \<and> card (names_with_status st ''error'') = 1
                \<and> card (names_with_status st ''ok'') = 2"
    and keys: "returned (R (checkers m) order b) = Some st \<Longrightarrow> dom (Checks st) = returning run (checkers m)"
    and keys_all: "R (checkers m) order b = Completed st \<Longrightarrow> dom (Checks st) = dom (checkers m)"
    and completes: "\<forall>nm c. checkers m nm = Some c \<longrightarrow> (\<exists>err. run c = Returns err) \<Longrightarrow>
            \<exists>st. R (checkers m) order b = Completed st \<and> dom (Checks st) = dom (checkers m)"
    and isolated: "\<forall>nm c. checkers m nm = Some c \<longrightarrow> (\<exists>err. run c = Returns err) \<Longrightarrow>
            \<exists>st st'. R (checkers m) order b = Completed st
               \<and> R ((checkers m)(f := None)) (removeAll f order) b' = Completed st'
               \<and> (\<forall>nm. nm \<noteq> f \<longrightarrow> Checks st nm = Checks st' nm)"
    and crashes: "\<exists>nm c p. checkers m nm = Some c \<and> run c = Panics p \<Longrightarrow>
            (\<exists>q. crash (R (checkers m) order b) = Some q) \<and> returned (R (checkers m) order False) = None"
    and same_without: "returned (R (checkers m) order b) = Some st \<Longrightarrow>
            returned (R ((checkers m)(f := None)) (removeAll f order) b') = Some st' \<Longrightarrow>
            \<forall>nm. nm \<noteq> f \<longrightarrow> Checks st nm = Checks st' nm"
proof -
  let ?init = "\<lparr>Status = ''ok'', Timestamp = now, Checks = Map.empty\<rparr>"
  have ord': "set (removeAll f order) = dom ((checkers m)(f := None))" using ord by auto
  show "(Status st = ''ok'') = (\<forall>nm r. Checks st nm = Some r \<longrightarrow> cr_Status r = ''ok'')"
    if "returned (R (checkers m) order b) = Some st"
    using that unfolding R_def by (rule round_ok_iff [OF ord _ initial_status])
  show "Status st = ''error'' \<and> card (names_with_status st ''error'') = 1
                \<and> card (names_with_status st ''ok'') = 2"
    if "R (checkers m) order b = Completed st" "card (dom (checkers m)) = 3" "card (failing run (checkers m)) = 1"
    using that(1) unfolding R_def by (rule round_three [OF ord _ initial_status that(2,3)])
  show k: "dom (Checks st) = returning run (checkers m)" if "returned (R (checkers m) order b) = Some st" for st
    using that unfolding R_def by (rule round_dom [OF ord _ initial_status])
  show ka: "dom (Checks st) = dom (checkers m)" if c: "R (checkers m) order b = Completed st" for st
  proof -
    note rc = round_Completed [OF ord c [unfolded R_def]]
    have "dom (Checks st) = returning run (checkers m)"
      by (rule round_dom [OF ord rc(3) initial_status])
    then show ?thesis using rc(2) by simp
  qed
  show "\<exists>st. R (checkers m) order b = Completed st \<and> dom (Checks st) = dom (checkers m)"
    if np: "\<forall>nm c. checkers m nm = Some c \<longrightarrow> (\<exists>err. run c = Returns err)"
  proof -
    have "panicking run (checkers m) = {}" using np by (simp only: panicking_empty_iff)
    from round_no_panic [OF ord this, of ?init b]
    have "R (checkers m) order b = Completed (fst (fan_out run (checkers m) order ?init))"
      unfolding R_def .
    then show ?thesis using ka by blast
  qed
  show "\<exists>st st'. R (checkers m) order b = Completed st
               \<and> R ((checkers m)(f := None)) (removeAll f order) b' = Completed st'
               \<and> (\<forall>nm. nm \<noteq> f \<longrightarrow> Checks st nm = Checks st' nm)"
    if np: "\<forall>nm c. checkers m nm = Some c \<longrightarrow> (\<exists>err. run c = Returns err)"
  proof -
    have p: "panicking run (checkers m) = {}" using np by (simp only: panicking_empty_iff)
    note p' = panicking_remove [OF p, of f]
    define st where "st = fst (fan_out run (checkers m) order ?init)"
    define st' where "st' = fst (fan_out run ((checkers m)(f := None)) (removeAll f order) ?init)"
    have a: "(if dom (checkers m) = {} then Completed ?init
              else join b (fan_out run (checkers m) order ?init)) = Completed st"
      unfolding st_def by (rule round_no_panic [OF ord p])
    have a': "(if dom ((checkers m)(f := None)) = {} then Completed ?init
              else join b' (fan_out run ((checkers m)(f := None)) (removeAll f order) ?init)) = Completed st'"
      unfolding st'_def by (rule round_no_panic [OF ord' p'])
    have "\<forall>nm. nm \<noteq> f \<longrightarrow> Checks st nm = Checks st' nm"
      by (rule round_isolated [OF ord initial_status round_Completed(3) [OF ord a]
            round_Completed(3) [OF ord' a']])
    moreover have "R (checkers m) order b = Completed st" unfolding R_def by (rule a)
    moreover have "R ((checkers m)(f := None)) (removeAll f order) b' = Completed st'"
      unfolding R_def by (rule a')
    ultimately show ?thesis by blast
  qed
  show "(\<exists>q. crash (R (checkers m) order b) = Some q) \<and> returned (R (checkers m) order False) = None"
    if "\<exists>nm c p. checkers m nm = Some c \<and> run c = Panics p"
  proof -
    have p: "panicking run (checkers m) \<noteq> {}" using that by (simp only: panicking_nonempty_iff)
    show ?thesis unfolding R_def
      using round_panic(1) [OF ord p, of ?init b] round_panic(2) [OF ord p, of ?init] by (rule conjI)
  qed
  show "\<forall>nm. nm \<noteq> f \<longrightarrow> Checks st nm = Checks st' nm"
    if "returned (R (checkers m) order b) = Some st"
      "returned (R ((checkers m)(f := None)) (removeAll f order) b') = Some st'"
    using that unfolding R_def
    by (rule round_isolated [OF ord initial_status])
qed

lemma Check_unfold:
  "health_Manager_Check m w ctx now order b =
     (if dom (checkers m) = {} then Completed \<lparr>Status = ''ok'', Timestamp = now, Checks = Map.empty\<rparr>
      else join b (fan_out (\<lambda>c. hc_Check c w (WithTimeout ctx (Timeout (health_config m)))) (checkers m) order
             \<lparr>Status = ''ok'', Timestamp = now, Checks = Map.empty\<rparr>))"
  by (simp add: health_Manager_Check_def)

lemma Ping_unfold:
  "health_Manager_Ping m w ctx now order b =
     (if dom (checkers m) = {} then Completed \<lparr>Status = ''ok'', Timestamp = now, Checks = Map.empty\<rparr>
      else join b (fan_out (\<lambda>c. hc_Ping c w (WithTimeout ctx (Timeout (health_config m)))) (checkers m) order
             \<lparr>Status = ''ok'', Timestamp = now, Checks = Map.empty\<rparr>))"
  by (simp add: health_Manager_Ping_def)

lemma health_Manager_update_checkers:
  "checkers (m\<lparr>checkers := cs\<rparr>) = cs"
  "health_config (m\<lparr>checkers := cs\<rparr>) = health_config m"
  by simp_all

lemma Check_facts:
  assumes "set order = dom (checkers m)"
  shows "(returned (health_Manager_Check m w ctx now order b) = Some st \<longrightarrow>
                  ((Status st = ''ok'') = (\<forall>nm r. Checks st nm = Some r \<longrightarrow> cr_Status r = ''ok'')))"
    and "(health_Manager_Check m w ctx now order b = Completed st
                  \<and> card (dom (checkers m)) = 3
                  \<and> card (failing (\<lambda>c. hc_Check c w (WithTimeout ctx (Timeout (health_config m)))) (checkers m)) = 1
                \<longrightarrow> Status st = ''error'' \<and> card (names_with_status st ''error'') = 1
                    \<and> card (names_with_status st ''ok'') = 2)"
    and "(returned (health_Manager_Check m w ctx now order b) = Some st \<longrightarrow>
                  dom (Checks st) = returning (\<lambda>c. hc_Check c w (WithTimeout ctx (Timeout (health_config m)))) (checkers m))"
    and "(health_Manager_Check m w ctx now order b = Completed st \<longrightarrow> dom (Checks st) = dom (checkers m))"
    and "((\<forall>nm c. checkers m nm = Some c \<longrightarrow> (\<exists>err. hc_Check c w (WithTimeout ctx (Timeout (health_config m))) = Returns err)) \<longrightarrow>
                  (\<exists>st. health_Manager_Check m w ctx now order b = Completed st
                     \<and> dom (Checks st) = dom (checkers m)))"
    and "((\<forall>nm c. checkers m nm = Some c \<longrightarrow> (\<exists>err. hc_Check c w (WithTimeout ctx (Timeout (health_config m))) = Returns err)) \<longrightarrow>
                (\<exists>st st'. health_Manager_Check m w ctx now order b = Completed st
                   \<and> health_Manager_Check (m\<lparr>checkers := (checkers m)(f := None)\<rparr>) w ctx now (removeAll f order) b'
                         = Completed st'
                   \<and> (\<forall>nm. nm \<noteq> f \<longrightarrow> Checks st nm = Checks st' nm)))"
    and "((\<exists>nm c p. checkers m nm = Some c \<and> hc_Check c w (WithTimeout ctx (Timeout (health_config m))) = Panics p) \<longrightarrow>
                (\<exists>q. crash (health_Manager_Check m w ctx now order b) = Some q)
                \<and> returned (health_Manager_Check m w ctx now order False) = None)"
    and "(returned (health_Manager_Check m w ctx now order b) = Some st
                \<and> returned (health_Manager_Check (m\<lparr>checkers := (checkers m)(f := None)\<rparr>) w ctx now
                      (removeAll f order) b') = Some st' \<longrightarrow>
                (\<forall>nm. nm \<noteq> f \<longrightarrow> Checks st nm = Checks st' nm))"
  unfolding Check_unfold health_Manager_update_checkers
  by ((intro impI)?, (elim conjE)?, rule round_facts [OF assms]; assumption)+

lemma Ping_facts:
  assumes "set order = dom (checkers m)"
  shows "(returned (health_Manager_Ping m w ctx now order b) = Some st \<longrightarrow>
                  ((Status st = ''ok'') = (\<forall>nm r. Checks st nm = Some r \<longrightarrow> cr_Status r = ''ok'')))"
    and "(health_Manager_Ping m w ctx now order b = Completed st
                  \<and> card (dom (checkers m)) = 3
                  \<and> card (failing (\<lambda>c. hc_Ping c w (WithTimeout ctx (Timeout (health_config m)))) (checkers m)) = 1
                \<longrightarrow> Status st = ''error'' \<and> card (names_with_status st ''error'') = 1
                    \<and> card (names_with_status st ''ok'') = 2)"
    and "(returned (health_Manager_Ping m w ctx now order b) = Some st \<longrightarrow>
                  dom (Checks st) = returning (\<lambda>c. hc_Ping c w (WithTimeout ctx (Timeout (health_config m)))) (checkers m))"
    and "(health_Manager_Ping m w ctx now order b = Completed st \<longrightarrow> dom (Checks st) = dom (checkers m))"
    and "((\<forall>nm c. checkers m nm = Some c \<longrightarrow> (\<exists>err. hc_Ping c w (WithTimeout ctx (Timeout (health_config m))) = Returns err)) \<longrightarrow>
                  (\<exists>st. health_Manager_Ping m w ctx now order b = Completed st
                     \<and> dom (Checks st) = dom (checkers m)))"
    and "((\<forall>nm c. checkers m nm = Some c \<longrightarrow> (\<exists>err. hc_Ping c w (WithTimeout ctx (Timeout (health_config m))) = Returns err)) \<longrightarrow>
                (\<exists>st st'. health_Manager_Ping m w ctx now order b = Completed st
                   \<and> health_Manager_Ping (m\<lparr>checkers := (checkers m)(f := None)\<rparr>) w ctx now (removeAll f order) b'
                         = Completed st'
                   \<and> (\<forall>nm. nm \<noteq> f \<longrightarrow> Checks st nm = Checks st' nm)))"
    and "((\<exists>nm c p. checkers m nm = Some c \<and> hc_Ping c w (WithTimeout ctx (Timeout (health_config m))) = Panics p) \<longrightarrow>
                (\<exists>q. crash (health_Manager_Ping m w ctx now order b) = Some q)
                \<and> returned (health_Manager_Ping m w ctx now order False) = None)"
    and "(returned (health_Manager_Ping m w ctx now order b) = Some st
                \<and> returned (health_Manager_Ping (m\<lparr>checkers := (checkers m)(f := None)\<rparr>) w ctx now
                      (removeAll f order) b') = Some st' \<longrightarrow>
                (\<forall>nm. nm \<noteq> f \<longrightarrow> Checks st nm = Checks st' nm))"
  unfolding Ping_unfold health_Manager_update_checkers
  by ((intro impI)?, (elim conjE)?, rule round_facts [OF assms]; assumption)+

lemma example_health_checkers:
  "checkers (example_health pr) =
     [''a'' \<mapsto> stub_checker ''a'' (Returns None), ''b'' \<mapsto> stub_checker ''b'' pr,
      ''c'' \<mapsto> stub_checker ''c'' (Returns None)]"
  "health_config (example_health pr) = \<lparr>Timeout = 5, Detailed = True\<rparr>"
  by (simp_all add: example_health_def health_Manager_Register_def health_NewManager_def stub_checker_def)

lemma example_health_dom:
  "dom (checkers (example_health pr)) = {''a'', ''b'', ''c''}"
  "set [''c'', ''a'', ''b''] = dom (checkers (example_health pr))"
  "distinct [''c'', ''a'', ''b'']"
  by (auto simp: example_health_checkers)

lemma example_health_failing:
  "failing (\<lambda>c. hc_Check c w ctx) (checkers (example_health (Returns (Some e)))) = {''b''}"
  "failing (\<lambda>c. hc_Ping c w ctx) (checkers (example_health (Returns (Some e)))) = {''b''}"
  by (auto simp: failing_def example_health_checkers stub_checker_def split: if_splits)

lemma example_health_returning:
  "returning (\<lambda>c. hc_Check c w ctx) (checkers (example_health (Panics p))) = {''a'', ''c''}"
  "returning (\<lambda>c. hc_Ping c w ctx) (checkers (example_health (Panics p))) = {''a'', ''c''}"
  by (auto simp: returning_def example_health_checkers stub_checker_def split: if_splits)

lemma example_health_returns:
  "\<forall>nm c. checkers (example_health (Returns e)) nm = Some c \<longrightarrow> (\<exists>err. hc_Check c w ctx = Returns err)"
  "\<forall>nm c. checkers (example_health (Returns e)) nm = Some c \<longrightarrow> (\<exists>err. hc_Ping c w ctx = Returns err)"
  by (auto simp: example_health_checkers stub_checker_def split: if_splits)

lemma example_health_panics:
  "\<exists>nm c p. checkers (example_health (Panics q)) nm = Some c \<and> hc_Check c w ctx = Panics p"
  "\<exists>nm c p. checkers (example_health (Panics q)) nm = Some c \<and> hc_Ping c w ctx = Panics p"
proof -
  have b: "checkers (example_health (Panics q)) ''b'' = Some (stub_checker ''b'' (Panics q))"
    by (simp add: example_health_checkers)
  have "hc_Check (stub_checker ''b'' (Panics q)) w ctx = Panics q"
    and "hc_Ping (stub_checker ''b'' (Panics q)) w ctx = Panics q"
    by (simp_all add: stub_checker_def)
  with b show "\<exists>nm c p. checkers (example_health (Panics q)) nm = Some c \<and> hc_Check c w ctx = Panics p"
    and "\<exists>nm c p. checkers (example_health (Panics q)) nm = Some c \<and> hc_Ping c w ctx = Panics p"
    by blast+
qed

lemma example_round_down:
  "\<exists>st. health_Manager_Check (example_health (Returns e)) w ctx now [''c'', ''a'', ''b''] b = Completed st"
  "\<exists>st. health_Manager_Ping (example_health (Returns e)) w ctx now [''c'', ''a'', ''b''] b = Completed st"
  by (simp_all add: health_Manager_Check_def health_Manager_Ping_def join_def example_health_checkers
      stub_checker_def)

lemma example_round_panic:
  "\<exists>st. health_Manager_Check (example_health (Panics p)) w ctx now order True = Returned_then_crashed st p"
  "\<exists>st. health_Manager_Ping (example_health (Panics p)) w ctx now order True = Returned_then_crashed st p"
  "health_Manager_Check (example_health (Panics p)) w ctx now order False = Crashed p"
  "health_Manager_Ping (example_health (Panics p)) w ctx now order False = Crashed p"
  if "order = [''c'', ''a'', ''b''] \<or> order = [''a'', ''b'', ''c'']"
  using that
  by (auto simp: health_Manager_Check_def health_Manager_Ping_def join_def example_health_checkers
      stub_checker_def)

lemma example_round_without_b:
  "\<exists>st. health_Manager_Check ((example_health pr)\<lparr>checkers := (checkers (example_health pr))(''b'' := None)\<rparr>)
          w ctx now [''c'', ''a''] b = Completed st"
  "\<exists>st. health_Manager_Ping ((example_health pr)\<lparr>checkers := (checkers (example_health pr))(''b'' := None)\<rparr>)
          w ctx now [''c'', ''a''] b = Completed st"
  by (simp_all add: health_Manager_Check_def health_Manager_Ping_def join_def example_health_checkers
      stub_checker_def)

lemma example_panic_keys:
  "dom (Checks (the (returned (health_Manager_Check (example_health (Panics ''boom'')) example_world Background
       ''2024-05-01T12:00:00Z'' [''c'', ''a'', ''b''] True)))) = {''a'', ''c''}"
  "dom (Checks (the (returned (health_Manager_Ping (example_health (Panics ''boom'')) example_world Background
       ''2024-05-01T12:00:00Z'' [''c'', ''a'', ''b''] True)))) = {''a'', ''c''}"
  by (auto simp: health_Manager_Check_def health_Manager_Ping_def join_def example_health_checkers
      stub_checker_def returned_simps record_result_def split: if_splits)

section \<open>Construction of an instance\<close>

lemma connect_Inl:
  assumes "connect cfg inst w = (Inl err, w1)"
  shows "w1 = w" and "\<not> connects cfg w inst"
  using assms by (auto simp: connects_def connect_def gorm_Open_def split: if_splits option.splits)

lemma connect_Inr:
  assumes "connect cfg inst w = (Inr db, w1)"
  shows "db = \<lparr>ConnPool = opened w, Ctx = Background\<rparr>" and "w1 = w\<lparr>opened := Suc (opened w)\<rparr>"
    and "connects cfg w inst"
  using assms by (auto simp: connects_def connect_def gorm_Open_def split: if_splits option.splits)

lemma connects_cong:
  assumes "Open_err w' = Open_err w"
  shows "connects cfg w' = connects cfg w"
  using assms by (auto simp: fun_eq_iff connects_def connect_def gorm_Open_def split: option.splits)

lemma same_backend_simps:
  "same_backend w w"
  "same_backend w (Warn msg w1) = same_backend w w1"
  "same_backend w (set_pool_limits cfg p w1) = same_backend w w1"
  "same_backend w (w1\<lparr>opened := k\<rparr>) = same_backend w w1"
  by (simp_all add: same_backend_def Warn_def set_pool_limits_def)

lemma same_backend_trans:
  "same_backend w w1 \<Longrightarrow> same_backend w1 w2 \<Longrightarrow> same_backend w w2"
  by (simp add: same_backend_def)

lemma connect_slaves_never_Err:
  "fst (connect_slaves cfg i cfgs acc w) \<noteq> Err e"
proof (induction cfgs arbitrary: i acc w)
  case Nil
  then show ?case by simp
next
  case (Cons s cfgs)
  show ?case
  proof (cases "connect cfg s w")
    case (Pair r w1)
    show ?thesis
    proof (cases r)
      case (Inl err)
      then show ?thesis using Pair Cons.IH by simp
    next
      case (Inr slave)
      then show ?thesis using Pair Cons.IH by (cases "GormDB_DB w1 slave") simp_all
    qed
  qed
qed

lemma connect_slaves_backend:
  "same_backend w (snd (connect_slaves cfg i cfgs acc w))"
proof (induction cfgs arbitrary: i acc w)
  case Nil
  then show ?case by (simp add: same_backend_simps)
next
  case (Cons s cfgs)
  show ?case
  proof (cases "connect cfg s w")
    case (Pair r w1)
    show ?thesis
    proof (cases r)
      case (Inl err)
      let ?w = "Warn (''failed to connect to slave database '' @ itoa (int i) @ '': '' @ err) w1"
      have "w1 = w" using Pair Inl connect_Inl(1) by blast
      then have "same_backend w ?w" by (simp add: same_backend_simps)
      then have "same_backend w (snd (connect_slaves cfg (Suc i) cfgs acc ?w))"
        using Cons.IH same_backend_trans by blast
      then show ?thesis using Pair Inl by simp
    next
      case (Inr slave)
      have w1: "w1 = w\<lparr>opened := Suc (opened w)\<rparr>" using Pair Inr connect_Inr(2) by blast
      show ?thesis
      proof (cases "GormDB_DB w1 slave")
        case (Inl err)
        then show ?thesis using Pair Inr w1 by (simp add: same_backend_simps)
      next
        case (Inr p)
        let ?w = "set_pool_limits cfg p w1"
        have "same_backend w ?w" using w1 by (simp add: same_backend_simps)
        then have "same_backend w (snd (connect_slaves cfg (Suc i) cfgs (acc @ [slave]) ?w))"
          using Cons.IH same_backend_trans by blast
        then show ?thesis using Pair \<open>r = Inr slave\<close> Inr by simp
      qed
    qed
  qed
qed

lemma connect_slaves_Ok:
  assumes "\<forall>p. DB_err w p = None"
  shows "\<exists>w'. connect_slaves cfg i cfgs acc w =
            (Ok (acc @ map (\<lambda>p. \<lparr>ConnPool = p, Ctx = Background\<rparr>)
                       [opened w..<opened w + length (filter (connects cfg w) cfgs)]), w')
          \<and> length (warnings w') = length (warnings w) + length (filter (\<lambda>s. \<not> connects cfg w s) cfgs)"
  using assms
proof (induction cfgs arbitrary: i acc w)
  case Nil
  then show ?case by simp
next
  case (Cons s cfgs)
  show ?case
  proof (cases "connect cfg s w")
    case (Pair r w1)
    show ?thesis
    proof (cases r)
      case (Inl err)
      define msg where "msg = ''failed to connect to slave database '' @ itoa (int i) @ '': '' @ err"
      have w1: "w1 = w" and down: "\<not> connects cfg w s"
        using Pair Inl connect_Inl by blast+
      have step: "connect_slaves cfg i (s # cfgs) acc w = connect_slaves cfg (Suc i) cfgs acc (Warn msg w)"
        using Pair Inl by (simp add: msg_def w1)
      have c: "connects cfg (Warn msg w) = connects cfg w"
        by (rule connects_cong) (simp add: Warn_def)
      have d: "\<forall>p. DB_err (Warn msg w) p = None" using Cons.prems by (simp add: Warn_def)
      have o: "opened (Warn msg w) = opened w" "length (warnings (Warn msg w)) = Suc (length (warnings w))"
        by (simp_all add: Warn_def)
      from Cons.IH [OF d, of "Suc i" acc] show ?thesis
        unfolding step c o using down by simp
    next
      case (Inr slave)
      have sl: "slave = \<lparr>ConnPool = opened w, Ctx = Background\<rparr>"
        and w1: "w1 = w\<lparr>opened := Suc (opened w)\<rparr>" and up: "connects cfg w s"
        using Pair Inr connect_Inr by blast+
      have db: "GormDB_DB w1 slave = Inr (opened w)"
        using Cons.prems by (simp add: GormDB_DB_def sl w1)
      define w2 where "w2 = set_pool_limits cfg (opened w) w1"
      define k where "k = length (filter (connects cfg w) cfgs)"
      have step: "connect_slaves cfg i (s # cfgs) acc w = connect_slaves cfg (Suc i) cfgs (acc @ [slave]) w2"
        using Pair Inr db by (simp add: w2_def)
      have c: "connects cfg w2 = connects cfg w"
        by (rule connects_cong) (simp add: w1 w2_def set_pool_limits_def)
      have d: "\<forall>p. DB_err w2 p = None" using Cons.prems by (simp add: w1 w2_def set_pool_limits_def)
      have o: "opened w2 = Suc (opened w)" "warnings w2 = warnings w"
        by (simp_all add: w1 w2_def set_pool_limits_def)
      have u: "[opened w..<opened w + Suc k] = opened w # [Suc (opened w)..<Suc (opened w) + k]"
        by (simp add: upt_conv_Cons del: upt_Suc)
      have f: "length (filter (connects cfg w) (s # cfgs)) = Suc k"
        "length (filter (\<lambda>s. \<not> connects cfg w s) (s # cfgs)) = length (filter (\<lambda>s. \<not> connects cfg w s) cfgs)"
        using up by (simp_all add: k_def)
      have l: "acc @ map (\<lambda>p. \<lparr>ConnPool = p, Ctx = Background\<rparr>) (opened w # xs)
             = (acc @ [slave]) @ map (\<lambda>p. \<lparr>ConnPool = p, Ctx = Background\<rparr>) xs" for xs
        by (simp add: sl)
      from Cons.IH [OF d, of "Suc i" "acc @ [slave]"] show ?thesis
        unfolding step c o f u l k_def [symmetric] .
    qed
  qed
qed

lemma connect_slaves_pools:
  assumes "connect_slaves cfg i cfgs acc w = (Ok slvs, w')"
  shows "\<exists>k. map ConnPool slvs = map ConnPool acc @ [opened w..<opened w + k]"
  using assms
proof (induction cfgs arbitrary: i acc w)
  case Nil
  then have "map ConnPool slvs = map ConnPool acc @ [opened w..<opened w + 0]" by simp
  then show ?case by blast
next
  case (Cons s cfgs)
  show ?case
  proof (cases "connect cfg s w")
    case (Pair r w1)
    show ?thesis
    proof (cases r)
      case (Inl err)
      define msg where "msg = ''failed to connect to slave database '' @ itoa (int i) @ '': '' @ err"
      have w1: "w1 = w" using Pair Inl connect_Inl(1) by blast
      have "connect_slaves cfg (Suc i) cfgs acc (Warn msg w) = (Ok slvs, w')"
        using Cons.prems Pair Inl by (simp add: msg_def w1)
      from Cons.IH [OF this] show ?thesis by (simp add: Warn_def)
    next
      case (Inr slave)
      have sl: "slave = \<lparr>ConnPool = opened w, Ctx = Background\<rparr>"
        and w1: "w1 = w\<lparr>opened := Suc (opened w)\<rparr>"
        using Pair Inr connect_Inr by blast+
      show ?thesis
      proof (cases "GormDB_DB w1 slave")
        case (Inl err)
        then show ?thesis using Cons.prems Pair \<open>r = Inr slave\<close> by simp
      next
        case (Inr p)
        define w2 where "w2 = set_pool_limits cfg p w1"
        have o: "opened w2 = Suc (opened w)" by (simp add: w2_def w1 set_pool_limits_def)
        have "connect_slaves cfg (Suc i) cfgs (acc @ [slave]) w2 = (Ok slvs, w')"
          using Cons.prems Pair \<open>r = Inr slave\<close> Inr by (simp add: w2_def)
        from Cons.IH [OF this] obtain k where
          "map ConnPool slvs = map ConnPool (acc @ [slave]) @ [Suc (opened w)..<Suc (opened w) + k]"
          unfolding o by blast
        then have "map ConnPool slvs = map ConnPool acc @ [opened w..<opened w + Suc k]"
          by (simp add: sl upt_conv_Cons del: upt_Suc)
        then show ?thesis by blast
      qed
    qed
  qed
qed

lemma New_not_Ok_frame:
  assumes "New cfg w h = (r, w', h')" and "\<forall>db. r \<noteq> Ok db"
  shows "h' = h"
  using assms
  by (auto simp: New_def Let_def split: prod.splits sum.splits result.splits option.splits)

lemma DatabaseHealthChecker_Name:
  "hc_Name (DatabaseHealthChecker nm db) = nm"
  by (simp add: DatabaseHealthChecker_def)

lemma New_Ok_registers:
  assumes "New cfg w h = (Ok db, w', h')"
  shows "name db = Name cfg"
    and "h' = map_option (\<lambda>hm. hm\<lparr>checkers := (checkers hm)(Name cfg \<mapsto> DatabaseHealthChecker (Name cfg) (master db))\<rparr>) h"
  using assms
  by (auto simp: New_def Let_def health_Manager_Register_def DatabaseHealthChecker_Name
      split: prod.splits sum.splits result.splits option.splits)

lemma New_master_down:
  assumes "connect cfg (Master cfg) w = (Inl err, w1)"
  shows "New cfg w h = (Err (''failed to connect to master database: '' @ err), w1, h)"
  using assms by (simp add: New_def)

lemma New_verify_fails:
  assumes "connect cfg (Master cfg) w = (Inr mst, w1)" and "GormDB_DB w1 mst = Inr sqlDB"
    and "connect_slaves cfg 0 (Slaves cfg) [] (set_pool_limits cfg sqlDB w1) = (Ok slvs, w2)"
    and "Exec w2 (WithContext mst Background) ''SELECT 1'' = Some err"
  shows "New cfg w h = (Err (''failed to verify database connection: '' @ err), w2, h)"
  using assms by (simp add: New_def)

lemma New_verify_gate:
  assumes "Exec_err w (opened w) ''SELECT 1'' = Some err"
  shows "fst (New cfg w h) \<noteq> Ok db"
proof (cases "connect cfg (Master cfg) w")
  case (Pair r w1)
  show ?thesis
  proof (cases r)
    case (Inl e)
    then show ?thesis using Pair by (simp add: New_def)
  next
    case (Inr mst)
    have mst: "mst = \<lparr>ConnPool = opened w, Ctx = Background\<rparr>"
      and w1: "w1 = w\<lparr>opened := Suc (opened w)\<rparr>"
      using Pair Inr connect_Inr by blast+
    show ?thesis
    proof (cases "GormDB_DB w1 mst")
      case (Inl e)
      then show ?thesis using Pair \<open>r = Inr mst\<close> by (simp add: New_def)
    next
      case (Inr sqlDB)
      define w1' where "w1' = set_pool_limits cfg sqlDB w1"
      obtain rs w2 where cs: "connect_slaves cfg 0 (Slaves cfg) [] w1' = (rs, w2)"
        by (cases "connect_slaves cfg 0 (Slaves cfg) [] w1'")
      have "same_backend w1' w2"
        using connect_slaves_backend [of w1' cfg 0 "Slaves cfg" "[]"] cs by simp
      moreover have "same_backend w w1'"
        by (simp add: w1'_def w1 same_backend_simps)
      ultimately have "Exec_err w2 = Exec_err w"
        by (simp add: same_backend_def)
      then have ex: "Exec w2 (WithContext mst Background) ''SELECT 1'' = Some err"
        using assms by (simp add: Exec_def WithContext_def mst)
      show ?thesis
        using Pair \<open>r = Inr mst\<close> Inr cs ex
        by (cases rs) (simp_all add: New_def w1'_def)
    qed
  qed
qed

lemma New_slaves_not_fatal:
  assumes up: "connects cfg w (Master cfg)" and db: "\<forall>p. DB_err w p = None"
    and ex: "Exec_err w (opened w) ''SELECT 1'' = None"
  shows "\<exists>db w' h'. New cfg w h = (Ok db, w', h')
       \<and> ConnPool (master db) = opened w
       \<and> map ConnPool (slaves db) =
            [Suc (opened w)..<Suc (opened w) + length (filter (connects cfg w) (Slaves cfg))]
       \<and> length (warnings w') =
            length (warnings w) + length (filter (\<lambda>s. \<not> connects cfg w s) (Slaves cfg))"
proof -
  obtain mst w1 where c: "connect cfg (Master cfg) w = (Inr mst, w1)"
    using up by (cases "connect cfg (Master cfg) w") (auto simp: connects_def split: sum.splits)
  have mst: "mst = \<lparr>ConnPool = opened w, Ctx = Background\<rparr>"
    and w1: "w1 = w\<lparr>opened := Suc (opened w)\<rparr>"
    using c connect_Inr by blast+
  have g: "GormDB_DB w1 mst = Inr (opened w)"
    using db by (simp add: GormDB_DB_def mst w1)
  define w1' where "w1' = set_pool_limits cfg (opened w) w1"
  have cc: "connects cfg w1' = connects cfg w"
    by (rule connects_cong) (simp add: w1'_def w1 set_pool_limits_def)
  have d: "\<forall>p. DB_err w1' p = None" using db by (simp add: w1'_def w1 set_pool_limits_def)
  have o: "opened w1' = Suc (opened w)" "warnings w1' = warnings w"
    by (simp_all add: w1'_def w1 set_pool_limits_def)
  define k where "k = length (filter (connects cfg w) (Slaves cfg))"
  define slvs where "slvs = map (\<lambda>p. \<lparr>ConnPool = p, Ctx = Background\<rparr>) [Suc (opened w)..<Suc (opened w) + k]"
  from connect_slaves_Ok [OF d, of cfg 0 "Slaves cfg" "[]"]
  obtain w2 where s: "connect_slaves cfg 0 (Slaves cfg) [] w1' = (Ok slvs, w2)"
    and wl: "length (warnings w2) = length (warnings w) + length (filter (\<lambda>s. \<not> connects cfg w s) (Slaves cfg))"
    unfolding cc o k_def [symmetric] slvs_def by auto
  have "same_backend w1' w2"
    using connect_slaves_backend [of w1' cfg 0 "Slaves cfg" "[]"] s by simp
  moreover have "same_backend w w1'"
    by (simp add: w1'_def w1 same_backend_simps)
  ultimately have "Exec_err w2 = Exec_err w"
    by (simp add: same_backend_def)
  then have e: "Exec w2 (WithContext mst Background) ''SELECT 1'' = None"
    using ex by (simp add: Exec_def WithContext_def mst)
  define d0 where "d0 = \<lparr>name = Name cfg, config = cfg, master = mst, slaves = slvs, slaveIndex = 0\<rparr>"
  have "\<exists>h'. New cfg w h = (Ok d0, w2, h')"
    using c g s e by (cases h) (simp_all add: New_def w1'_def d0_def)
  moreover have "ConnPool (master d0) = opened w" by (simp add: d0_def mst)
  moreover have "map ConnPool (slaves d0) = [Suc (opened w)..<Suc (opened w) + k]"
    by (simp add: d0_def slvs_def comp_def)
  ultimately show ?thesis using wl unfolding k_def by blast
qed

text \<open>
  Every successful \<open>gorm.Open\<close> yields a fresh pool, so the master and the active slaves
  of an instance built by \<open>New\<close> are on pairwise different pools.
\<close>

lemma New_pools_distinct:
  assumes "New cfg w h = (Ok db, w', h')"
  shows "distinct (map ConnPool (master db # slaves db))"
proof -
  obtain mst w1 sqlDB slvs w2 where c: "connect cfg (Master cfg) w = (Inr mst, w1)"
    and s: "connect_slaves cfg 0 (Slaves cfg) [] (set_pool_limits cfg sqlDB w1) = (Ok slvs, w2)"
    and d: "master db = mst" "slaves db = slvs"
    using assms
    by (auto simp: New_def Let_def split: prod.splits sum.splits result.splits option.splits)
  have mst: "ConnPool mst = opened w" and w1: "w1 = w\<lparr>opened := Suc (opened w)\<rparr>"
    using c connect_Inr by fastforce+
  have "opened (set_pool_limits cfg sqlDB w1) = Suc (opened w)"
    by (simp add: w1 set_pool_limits_def)
  then obtain k where "map ConnPool slvs = [Suc (opened w)..<Suc (opened w) + k]"
    using connect_slaves_pools [OF s] by auto
  then show ?thesis by (simp add: d mst)
qed

lemma itoa_3306: "itoa 3306 = ''3306''"
  by (simp add: itoa_def digits.simps)

lemma connect_example:
  "connect (example_config nm hosts) (example_instance h) w = gorm_Open (example_dsn h) w"
  by (simp add: connect_def example_config_def example_instance_def example_dsn_def itoa_3306 btoa_def)

lemma connects_example:
  "connects (example_config nm hosts) (unreachable down) (example_instance h) = (h \<notin> set down)"
  by (auto simp: connects_def connect_example gorm_Open_def unreachable_def example_dsn_def)

lemma unreachable_fields:
  "DB_err (unreachable down) = (\<lambda>p. None)" "Exec_err (unreachable down) = (\<lambda>p q. None)"
  "opened (unreachable down) = 0" "warnings (unreachable down) = []"
  by (simp_all add: unreachable_def example_world_def)

section \<open>Construction of the registry\<close>

lemma NewManager_loop_append:
  "NewManager_loop (pre @ rest) m w h =
     (case NewManager_loop pre m w h of
        (Ok m1, w1, h1) \<Rightarrow> NewManager_loop rest m1 w1 h1
      | (Err e, w1, h1) \<Rightarrow> (Err e, w1, h1)
      | (Panic p, w1, h1) \<Rightarrow> (Panic p, w1, h1))"
proof (induction pre arbitrary: m w h)
  case Nil
  then show ?case by simp
next
  case (Cons cfg pre)
  show ?case
  proof (cases "New cfg w h")
    case (fields r w1 h1)
    then show ?thesis using Cons.IH by (cases r) simp_all
  qed
qed

lemma NewManager_loop_first_failure:
  assumes "NewManager_loop pre m w h = (Ok m1, w1, h1)" and "New cfg w1 h1 = (Err err, w2, h2)"
  shows "NewManager_loop (pre @ cfg # post) m w h =
           (Err (''failed to initialize database '' @ Name cfg @ '': '' @ err), w2, h2)"
  using assms by (simp add: NewManager_loop_append)

lemma NewManager_loop_Err:
  assumes "NewManager_loop configs m w h = (Err e, w', h')"
  shows "\<exists>pre cfg post m1 w1 h1 err. configs = pre @ cfg # post
       \<and> NewManager_loop pre m w h = (Ok m1, w1, h1) \<and> New cfg w1 h1 = (Err err, w', h')
       \<and> e = ''failed to initialize database '' @ Name cfg @ '': '' @ err"
  using assms
proof (induction configs arbitrary: m w h)
  case Nil
  then show ?case by simp
next
  case (Cons c configs)
  show ?case
  proof (cases "New c w h")
    case (fields r wa ha)
    show ?thesis
    proof (cases r)
      case (Ok db)
      let ?m = "m\<lparr>databases := (databases m)(Name c \<mapsto> db)\<rparr>"
      have "NewManager_loop configs ?m wa ha = (Err e, w', h')"
        using Cons.prems fields Ok by simp
      from Cons.IH [OF this] obtain pre cfg post m1 w1 h1 err where
        a: "configs = pre @ cfg # post" "NewManager_loop pre ?m wa ha = (Ok m1, w1, h1)"
           "New cfg w1 h1 = (Err err, w', h')"
           "e = ''failed to initialize database '' @ Name cfg @ '': '' @ err"
        by blast
      have "c # configs = (c # pre) @ cfg # post" using a(1) by simp
      moreover have "NewManager_loop (c # pre) m w h = (Ok m1, w1, h1)"
        using fields Ok a(2) by simp
      ultimately show ?thesis using a(3,4) by blast
    next
      case (Err err)
      have "c # configs = [] @ c # configs" by simp
      moreover have "NewManager_loop [] m w h = (Ok m, w, h)" by simp
      moreover have "New c w h = (Err err, w', h')"
        and "e = ''failed to initialize database '' @ Name c @ '': '' @ err"
        using Cons.prems fields Err by simp_all
      ultimately show ?thesis by blast
    next
      case (Panic p)
      then show ?thesis using Cons.prems fields by simp
    qed
  qed
qed

lemma NewManager_loop_databases:
  assumes "NewManager_loop configs m w h = (Ok m', w', h')"
  shows "dom (databases m') = dom (databases m) \<union> Name ` set configs
       \<and> (\<forall>nm\<in>Name ` set configs. \<exists>db. databases m' nm = Some db \<and> name db = nm)
       \<and> (\<forall>nm. nm \<notin> Name ` set configs \<longrightarrow> databases m' nm = databases m nm)"
  using assms
proof (induction configs arbitrary: m w h)
  case Nil
  then show ?case by simp
next
  case (Cons c configs)
  show ?case
  proof (cases "New c w h")
    case (fields r wa ha)
    show ?thesis
    proof (cases r)
      case (Ok db)
      let ?m = "m\<lparr>databases := (databases m)(Name c \<mapsto> db)\<rparr>"
      have l: "NewManager_loop configs ?m wa ha = (Ok m', w', h')"
        using Cons.prems fields Ok by simp
      have n: "name db = Name c" using fields Ok New_Ok_registers(1) by blast
      note ih = Cons.IH [OF l]
      have 1: "dom (databases m') = dom (databases m) \<union> Name ` set (c # configs)"
        using ih by auto
      have 2: "\<exists>d. databases m' nm = Some d \<and> name d = nm" if "nm \<in> Name ` set (c # configs)" for nm
      proof (cases "nm \<in> Name ` set configs")
        case True
        then show ?thesis using ih by blast
      next
        case False
        then have "nm = Name c" using that by auto
        moreover have "databases m' nm = databases ?m nm" using ih False by blast
        ultimately show ?thesis using n by simp
      qed
      have 3: "databases m' nm = databases m nm" if "nm \<notin> Name ` set (c # configs)" for nm
      proof -
        have "databases m' nm = databases ?m nm" using ih that by auto
        then show ?thesis using that by simp
      qed
      show ?thesis using 1 2 3 by blast
    next
      case (Err err)
      then show ?thesis using Cons.prems fields by simp
    next
      case (Panic p)
      then show ?thesis using Cons.prems fields by simp
    qed
  qed
qed

lemma NewManager_loop_checkers:
  assumes "NewManager_loop configs m w (Some hm) = (Ok m', w', h')"
  shows "\<exists>hm'. h' = Some hm' \<and> dom (checkers hm') = dom (checkers hm) \<union> Name ` set configs
       \<and> (\<forall>nm\<in>Name ` set configs. \<exists>db. databases m' nm = Some db
              \<and> checkers hm' nm = Some (DatabaseHealthChecker nm (master db)))
       \<and> (\<forall>nm. nm \<notin> Name ` set configs \<longrightarrow> checkers hm' nm = checkers hm nm)"
  using assms
proof (induction configs arbitrary: m w hm)
  case Nil
  then show ?case by auto
next
  case (Cons c configs)
  show ?case
  proof (cases "New c w (Some hm)")
    case (fields r wa ha)
    show ?thesis
    proof (cases r)
      case (Ok db)
      let ?m = "m\<lparr>databases := (databases m)(Name c \<mapsto> db)\<rparr>"
      let ?hm = "hm\<lparr>checkers := (checkers hm)(Name c \<mapsto> DatabaseHealthChecker (Name c) (master db))\<rparr>"
      have ha: "ha = Some ?hm" using fields Ok New_Ok_registers(2) by fastforce
      have l: "NewManager_loop configs ?m wa (Some ?hm) = (Ok m', w', h')"
        using Cons.prems fields Ok ha by simp
      from Cons.IH [OF l] obtain hm' where ih: "h' = Some hm'"
        "dom (checkers hm') = dom (checkers ?hm) \<union> Name ` set configs"
        "\<forall>nm\<in>Name ` set configs. \<exists>db. databases m' nm = Some db
              \<and> checkers hm' nm = Some (DatabaseHealthChecker nm (master db))"
        "\<forall>nm. nm \<notin> Name ` set configs \<longrightarrow> checkers hm' nm = checkers ?hm nm"
        by blast
      note dbs = NewManager_loop_databases [OF l]
      have 1: "dom (checkers hm') = dom (checkers hm) \<union> Name ` set (c # configs)"
        using ih(2) by auto
      have 2: "\<exists>d. databases m' nm = Some d \<and> checkers hm' nm = Some (DatabaseHealthChecker nm (master d))"
        if "nm \<in> Name ` set (c # configs)" for nm
      proof (cases "nm \<in> Name ` set configs")
        case True
        then show ?thesis using ih(3) by blast
      next
        case False
        then have e: "nm = Name c" using that by auto
        have "databases m' nm = databases ?m nm" using dbs False by blast
        moreover have "checkers hm' nm = checkers ?hm nm" using ih(4) False by blast
        ultimately show ?thesis using e by simp
      qed
      have 3: "checkers hm' nm = checkers hm nm" if "nm \<notin> Name ` set (c # configs)" for nm
      proof -
        have "checkers hm' nm = checkers ?hm nm" using ih(4) that by auto
        then show ?thesis using that by simp
      qed
      show ?thesis using ih(1) 1 2 3 by blast
    next
      case (Err err)
      then show ?thesis using Cons.prems fields by simp
    next
      case (Panic p)
      then show ?thesis using Cons.prems fields by simp
    qed
  qed
qed

lemma example_main_constructed:
  "NewManager [example_config ''main'' []] (unreachable [''audit-master'']) (Some example_health_manager) =
     (Ok \<lparr>databases = [''main'' \<mapsto> \<lparr>name = ''main'', config = example_config ''main'' [],
                                      master = \<lparr>ConnPool = 0, Ctx = Background\<rparr>, slaves = [],
                                      slaveIndex = 0\<rparr>]\<rparr>,
      set_pool_limits (example_config ''main'' []) 0 ((unreachable [''audit-master''])\<lparr>opened := Suc 0\<rparr>),
      Some (example_health_manager\<lparr>checkers :=
              [''main'' \<mapsto> DatabaseHealthChecker ''main'' \<lparr>ConnPool = 0, Ctx = Background\<rparr>]\<rparr>))"
proof -
  let ?cfg = "example_config ''main'' []"
  let ?w = "unreachable [''audit-master'']"
  have m: "Master ?cfg = example_instance ''main-master''" "Slaves ?cfg = []" "Name ?cfg = ''main''"
    by (simp_all add: example_config_def)
  have c: "connect ?cfg (Master ?cfg) ?w = (Inr \<lparr>ConnPool = 0, Ctx = Background\<rparr>, ?w\<lparr>opened := Suc 0\<rparr>)"
    by (simp add: m connect_example gorm_Open_def unreachable_def example_dsn_def example_world_def)
  have g: "GormDB_DB (?w\<lparr>opened := Suc 0\<rparr>) \<lparr>ConnPool = 0, Ctx = Background\<rparr> = Inr 0"
    by (simp add: GormDB_DB_def unreachable_def example_world_def)
  have e: "Exec (set_pool_limits ?cfg 0 (?w\<lparr>opened := Suc 0\<rparr>))
             (WithContext \<lparr>ConnPool = 0, Ctx = Background\<rparr> Background) ''SELECT 1'' = None"
    by (simp add: Exec_def WithContext_def set_pool_limits_def unreachable_def example_world_def)
  have n: "New ?cfg ?w (Some example_health_manager) =
     (Ok \<lparr>name = ''main'', config = ?cfg, master = \<lparr>ConnPool = 0, Ctx = Background\<rparr>, slaves = [],
          slaveIndex = 0\<rparr>,
      set_pool_limits ?cfg 0 (?w\<lparr>opened := Suc 0\<rparr>),
      Some (example_health_manager\<lparr>checkers :=
              [''main'' \<mapsto> DatabaseHealthChecker ''main'' \<lparr>ConnPool = 0, Ctx = Background\<rparr>]\<rparr>))"
    unfolding New_def c by (simp add: g e m health_Manager_Register_def DatabaseHealthChecker_Name
        example_health_manager_def health_NewManager_def)
  show ?thesis
    unfolding NewManager_def NewManager_loop.simps n by (simp add: m)
qed

lemma example_audit_fails:
  "New (example_config ''audit'' [])
       (set_pool_limits (example_config ''main'' []) 0 ((unreachable [''audit-master''])\<lparr>opened := Suc 0\<rparr>)) h =
     (Err ''failed to connect to master database: dial tcp: connection refused'',
      set_pool_limits (example_config ''main'' []) 0 ((unreachable [''audit-master''])\<lparr>opened := Suc 0\<rparr>), h)"
proof -
  let ?w = "set_pool_limits (example_config ''main'' []) 0 ((unreachable [''audit-master''])\<lparr>opened := Suc 0\<rparr>)"
  have m: "Master (example_config ''audit'' []) = example_instance ''audit-master''"
    by (simp add: example_config_def)
  have "connect (example_config ''audit'' []) (Master (example_config ''audit'' [])) ?w
      = (Inl ''dial tcp: connection refused'', ?w)"
    by (simp add: m connect_example gorm_Open_def set_pool_limits_def unreachable_def)
  then show ?thesis by (simp add: New_master_down)
qed

section \<open>Shutdown\<close>

lemma close_fold_stdout:
  "stdout (fold (\<lambda>db w. case GormDB_DB w db of Inr sqlDB \<Rightarrow> snd (sqlDB_Close sqlDB w) | Inl err \<Rightarrow> w) dbs w)
     = stdout w"
  by (induction dbs arbitrary: w) (simp_all add: sqlDB_Close_def split: sum.splits)

lemma Database_Close_result:
  "fst (Database_Close d w) = None" "stdout (snd (Database_Close d w)) = stdout w"
  by (simp_all add: Database_Close_def Let_def close_fold_stdout sqlDB_Close_def split: sum.splits)

lemma Manager_Close_stdout:
  "stdout (snd (Manager_Close m order w)) = stdout w"
proof -
  have "stdout (fold (\<lambda>nm w. case databases m nm of
                      None \<Rightarrow> w
                    | Some db \<Rightarrow>
                        (case Database_Close db w of
                           (Some err, w') \<Rightarrow>
                             Printf (''Warning: failed to close database '' @ Database_Name db
                                     @ '': '' @ err @ [CHR 0x0A]) w'
                         | (None, w') \<Rightarrow> w')) order w) = stdout w"
  proof (induction order arbitrary: w)
    case Nil
    then show ?case by simp
  next
    case (Cons nm order)
    show ?case
    proof (cases "databases m nm")
      case None
      then show ?thesis using Cons by simp
    next
      case (Some db)
      obtain w1 where c: "Database_Close db w = (None, w1)"
        using Database_Close_result(1) [of db w] by (cases "Database_Close db w") auto
      have "stdout w1 = stdout w" using Database_Close_result(2) [of db w] c by simp
      then show ?thesis using Some c Cons by simp
    qed
  qed
  then show ?thesis by (simp add: Manager_Close_def)
qed

section \<open>The claims\<close>

subsection \<open>C1: round-robin over the slaves\<close>

lemma wrap_before: "visited (example_db 7) (replicate (613566757 * 7) Background) ! 4294967294 = 4"
  unfolding visited_7 by simp

lemma wrap_after: "visited (example_db 7) (replicate (613566757 * 7) Background) ! 4294967295 = 1"
  unfolding visited_7 by simp

lemma wrap_count: "count_list (visited (example_db 7) (replicate (613566757 * 7) Background)) 2 = 613566758"
proof -
  let ?g = "\<lambda>i. Suc (unat (of_nat (Suc i) :: 32 word) mod 7)"
  have split: "[0..<613566757 * 7] = [0..<613566756 * 7] @ [4294967292..<4294967299]"
    using upt_add_eq_append [of 0 "613566756 * 7" 7] by simp
  have low: "length (filter (\<lambda>i. ?g i = 2) [0..<613566756 * 7]) = 613566756"
  proof -
    have "filter (\<lambda>i. ?g i = 2) [0..<613566756 * 7] = filter (\<lambda>i. Suc i mod 7 = 1) [0..<613566756 * 7]"
    proof (rule filter_cong [OF refl])
      fix i assume "i \<in> set [0..<613566756 * 7]"
      then have "Suc i < 2 ^ 32" by simp
      then have "unat (of_nat (Suc i) :: 32 word) = Suc i" by (rule unat_counter)
      then show "(?g i = 2) = (Suc i mod 7 = 1)" by simp
    qed
    then show ?thesis using residue_count [of 1 7 613566756] by simp
  qed
  have high: "length (filter (\<lambda>i. ?g i = 2) [4294967292..<4294967299]) = 2"
    by simp
  show ?thesis
    unfolding visited_7 count_list_map_filter split filter_append length_append low high by simp
qed

text \<open>
  Claim C1, as stated for every \<open>k\<close>, fails once the 32-bit counter wraps.  With seven slaves
  on the pools \<open>1, \<dots>, 7\<close> and \<open>k = 613566757\<close>, a single caller issues \<open>k \<sqdot> 7 = 2\<^sup>3\<^sup>2 + 3\<close>
  calls from the counter value zero.  Call number \<open>2\<^sup>3\<^sup>2 - 1\<close> is served by the slave at index
  3 (pool 4) and the next call by the slave at index 0 (pool 1), where the cyclic order has
  index 4; and the slave at index 1 (pool 2) is visited \<open>k + 1\<close> times.
\<close>

theorem Slave_round_robin_wraps:
  "visited (example_db 7) (replicate (613566757 * 7) Background) ! 4294967294 = 4
   \<and> visited (example_db 7) (replicate (613566757 * 7) Background) ! 4294967295 = 1
   \<and> count_list (visited (example_db 7) (replicate (613566757 * 7) Background)) 2 = 613566758"
  using wrap_before wrap_after wrap_count by (intro conjI)

text \<open>
  Claim C1, amended: for an instance with \<open>N \<ge> 1\<close> active slaves on pairwise different
  pools, the counter at zero, and every \<open>k \<ge> 1\<close> such that the counter does not wrap
  (\<open>k \<sqdot> N < 2\<^sup>3\<^sup>2\<close>) or \<open>N < 2\<^sup>3\<^sup>2\<close> divides \<open>2\<^sup>3\<^sup>2\<close>, a single caller issuing \<open>Slave\<close> exactly
  \<open>k \<sqdot> N\<close> times in a row gets a handle every time, call number \<open>i + 1\<close> is served by the
  slave at index \<open>(i + 1) mod N\<close> (cyclic order), and each slave pool backs exactly \<open>k\<close> of
  the handles.
\<close>

theorem Slave_round_robin:
  assumes "N = length (slaves d)" and "1 \<le> N" and "1 \<le> k"
    and "k * N < 2 ^ 32 \<or> (N < 2 ^ 32 \<and> N dvd 2 ^ 32)"
    and "slaveIndex d = 0" and "length ctxs = k * N"
    and "distinct (map ConnPool (slaves d))"
  shows "\<exists>hs d'. Slave_calls d ctxs = Ok (hs, d') \<and> length hs = k * N
           \<and> (\<forall>i<k * N. hs ! i = WithContext (slaves d ! (Suc i mod N)) (ctxs ! i))
           \<and> (\<forall>s\<in>set (slaves d). count_list (map ConnPool hs) (ConnPool s) = k)"
proof -
  have Npos: "0 < length (slaves d)" using assms(1,2) by (cases "slaves d") auto
  have "N * 1 \<le> N * k" using assms(3) by (rule mult_le_mono2)
  then have le: "N \<le> k * N" by (simp add: mult.commute)
  from assms(4) have "N < 2 ^ 32"
  proof
    assume "k * N < 2 ^ 32"
    with le show ?thesis by (rule le_less_trans)
  next
    assume "N < 2 ^ 32 \<and> N dvd 2 ^ 32"
    then show ?thesis by (rule conjunct1)
  qed
  then have Nlt: "length (slaves d) < 2 ^ 32" by (simp only: assms(1))
  define hs where "hs = map (\<lambda>i. WithContext (slaves d ! (Suc i mod N)) (ctxs ! i)) [0..<k * N]"
  have idx: "unat (slaveIndex d + of_nat (Suc i) :: 32 word) mod N = Suc i mod N" if "i < k * N" for i
  proof -
    have u: "unat (slaveIndex d + of_nat (Suc i) :: 32 word) = Suc i mod 2 ^ 32"
      by (simp only: assms(5) add_0 unat_of_nat) simp
    from assms(4) show ?thesis
    proof
      assume "k * N < 2 ^ 32"
      then have "Suc i < 2 ^ 32" using that by simp
      then show ?thesis by (simp only: u mod_less)
    next
      assume "N < 2 ^ 32 \<and> N dvd 2 ^ 32"
      then have "Suc i mod 2 ^ 32 mod N = Suc i mod N" by (simp only: mod_mod_cancel)
      then show ?thesis by (simp only: u)
    qed
  qed
  have "map (\<lambda>i. WithContext (slaves d ! (unat (slaveIndex d + of_nat (Suc i)) mod length (slaves d))) (ctxs ! i))
          [0..<k * N] = hs"
    unfolding hs_def
  proof (rule map_cong [OF refl])
    fix i assume "i \<in> set [0..<k * N]"
    then have "i < k * N" by simp
    then show "WithContext (slaves d ! (unat (slaveIndex d + of_nat (Suc i)) mod length (slaves d))) (ctxs ! i)
             = WithContext (slaves d ! (Suc i mod N)) (ctxs ! i)"
      by (simp only: idx assms(1) [symmetric])
  qed
  then have run: "Slave_calls d ctxs = Ok (hs, d\<lparr>slaveIndex := slaveIndex d + of_nat (length ctxs)\<rparr>)"
    unfolding Slave_calls_closed [OF Npos Nlt] assms(6) by (simp only:)
  have len: "length hs = k * N" by (simp add: hs_def)
  have nth: "\<forall>i<k * N. hs ! i = WithContext (slaves d ! (Suc i mod N)) (ctxs ! i)"
    by (simp add: hs_def)
  have count: "count_list (map ConnPool hs) (ConnPool s) = k" if mem: "s \<in> set (slaves d)" for s
  proof -
    obtain j where j: "j < N" "slaves d ! j = s"
      using mem assms(1) by (auto simp: in_set_conv_nth)
    have eq: "(ConnPool (slaves d ! (Suc i mod N)) = ConnPool s) = (Suc i mod N = j)" for i
    proof -
      have "Suc i mod N < N" using assms(2) by simp
      then have "(map ConnPool (slaves d) ! (Suc i mod N) = map ConnPool (slaves d) ! j) = (Suc i mod N = j)"
        using j(1) assms(1,7) by (simp only: nth_eq_iff_index_eq length_map)
      then show ?thesis using j \<open>Suc i mod N < N\<close> assms(1) by simp
    qed
    have "map ConnPool hs = map (\<lambda>i. ConnPool (slaves d ! (Suc i mod N))) [0..<k * N]"
      by (simp add: hs_def WithContext_def comp_def)
    then have "count_list (map ConnPool hs) (ConnPool s)
             = length (filter (\<lambda>i. Suc i mod N = j) [0..<k * N])"
      by (simp only: count_list_map_filter eq)
    then show ?thesis by (simp add: residue_count [OF j(1)])
  qed
  show ?thesis using run len nth count by blast
qed

text \<open>
  Three slaves and two rounds; two slaves and a number of calls beyond the wrap.
\<close>

theorem Slave_round_robin_witness:
  "(\<exists>hs d'. Slave_calls (example_db 3) (replicate (2 * 3) Background) = Ok (hs, d')
       \<and> length hs = 2 * 3
       \<and> hs ! 2 = WithContext (slaves (example_db 3) ! 0) Background
       \<and> count_list (map ConnPool hs) 2 = 2)
   \<and> (\<exists>hs d'. Slave_calls (example_db 2) (replicate (2147483649 * 2) Background) = Ok (hs, d')
       \<and> hs ! 4294967295 = WithContext (slaves (example_db 2) ! 0) Background
       \<and> count_list (map ConnPool hs) 2 = 2147483649)"
proof
  have s: "slaves (example_db 3) = [\<lparr>ConnPool = 1, Ctx = Background\<rparr>, \<lparr>ConnPool = 2, Ctx = Background\<rparr>,
             \<lparr>ConnPool = 3, Ctx = Background\<rparr>]"
    by (simp add: example_db_def upt_conv_Cons)
  obtain hs d' where h: "Slave_calls (example_db 3) (replicate (2 * 3) Background) = Ok (hs, d')"
      "length hs = 2 * 3"
      "\<forall>i<2 * 3. hs ! i = WithContext (slaves (example_db 3) ! (Suc i mod 3)) (replicate (2 * 3) Background ! i)"
      "\<forall>s\<in>set (slaves (example_db 3)). count_list (map ConnPool hs) (ConnPool s) = 2"
    using Slave_round_robin [of 3 "example_db 3" 2 "replicate (2 * 3) Background"]
    by (auto simp: s example_db_slaves)
  have "hs ! 2 = WithContext (slaves (example_db 3) ! 0) Background"
    using h(3) by simp
  moreover have "count_list (map ConnPool hs) 2 = 2"
    using h(4) by (simp add: s)
  ultimately show "\<exists>hs d'. Slave_calls (example_db 3) (replicate (2 * 3) Background) = Ok (hs, d')
       \<and> length hs = 2 * 3
       \<and> hs ! 2 = WithContext (slaves (example_db 3) ! 0) Background
       \<and> count_list (map ConnPool hs) 2 = 2"
    using h(1,2) by blast
next
  have s: "slaves (example_db 2) = [\<lparr>ConnPool = 1, Ctx = Background\<rparr>, \<lparr>ConnPool = 2, Ctx = Background\<rparr>]"
    by (simp add: example_db_def upt_conv_Cons)
  have p: "(2::nat) < 2 ^ 32 \<and> (2::nat) dvd 2 ^ 32" by simp
  obtain hs d' where h: "Slave_calls (example_db 2) (replicate (2147483649 * 2) Background) = Ok (hs, d')"
      "\<forall>i<2147483649 * 2. hs ! i = WithContext (slaves (example_db 2) ! (Suc i mod 2))
            (replicate (2147483649 * 2) Background ! i)"
      "\<forall>s\<in>set (slaves (example_db 2)). count_list (map ConnPool hs) (ConnPool s) = 2147483649"
    using Slave_round_robin [of 2 "example_db 2" 2147483649 "replicate (2147483649 * 2) Background"] p
    by (auto simp: s example_db_slaves)
  have "hs ! 4294967295 = WithContext (slaves (example_db 2) ! (Suc 4294967295 mod 2))
            (replicate (2147483649 * 2) Background ! 4294967295)"
    using h(2) by simp
  then have "hs ! 4294967295 = WithContext (slaves (example_db 2) ! 0) Background"
    by simp
  moreover have "count_list (map ConnPool hs) 2 = 2147483649"
    using h(3) by (simp add: s)
  ultimately show "\<exists>hs d'. Slave_calls (example_db 2) (replicate (2147483649 * 2) Background) = Ok (hs, d')
       \<and> hs ! 4294967295 = WithContext (slaves (example_db 2) ! 0) Background
       \<and> count_list (map ConnPool hs) 2 = 2147483649"
    using h(1) by blast
qed

subsection \<open>C2: fallback to the master\<close>

text \<open>
  Claim C2: when the active slave list is empty, \<open>Slave(ctx)\<close> returns the very handle
  \<open>Master(ctx)\<close> returns, backed by the master pool, and leaves the instance unchanged; it does
  not fail.
\<close>

theorem Slave_master_fallback:
  assumes "slaves d = []"
  shows "Database_Slave d ctx = Ok (Database_Master d ctx, d)
       \<and> ConnPool (Database_Master d ctx) = ConnPool (master d)"
  using assms by (simp add: Database_Slave_def Database_Master_def WithContext_def)

theorem Slave_master_fallback_witness:
  "slaves (example_db 0) = []
   \<and> Database_Slave (example_db 0) Background = Ok (Database_Master (example_db 0) Background, example_db 0)
   \<and> ConnPool (Database_Master (example_db 0) Background) = ConnPool (master (example_db 0))"
  using Slave_master_fallback [of "example_db 0" Background] by (simp add: example_db_def)

subsection \<open>C3: overall status\<close>

text \<open>
  Claim C3: for every schedule of the tasks of a round, the status returned by \<open>Check\<close> (and
  by \<open>Ping\<close>) is \<open>ok\<close> if and only if every recorded result is \<open>ok\<close>; and when a round
  over three registered checkers completes and exactly one probe returns an error, the status
  is \<open>error\<close> with exactly one result \<open>error\<close> and two results \<open>ok\<close>.
\<close>

theorem health_status_ok_iff_every_check_ok:
  assumes "distinct order" and "set order = dom (checkers m)"
  shows "(returned (health_Manager_Check m w ctx now order b) = Some st \<longrightarrow>
            ((Status st = ''ok'') = (\<forall>nm r. Checks st nm = Some r \<longrightarrow> cr_Status r = ''ok'')))
       \<and> (health_Manager_Check m w ctx now order b = Completed st
            \<and> card (dom (checkers m)) = 3
            \<and> card (failing (\<lambda>c. hc_Check c w (WithTimeout ctx (Timeout (health_config m)))) (checkers m)) = 1
          \<longrightarrow> Status st = ''error'' \<and> card (names_with_status st ''error'') = 1
              \<and> card (names_with_status st ''ok'') = 2)
       \<and> (returned (health_Manager_Ping m w ctx now order b) = Some st \<longrightarrow>
            ((Status st = ''ok'') = (\<forall>nm r. Checks st nm = Some r \<longrightarrow> cr_Status r = ''ok'')))
       \<and> (health_Manager_Ping m w ctx now order b = Completed st
            \<and> card (dom (checkers m)) = 3
            \<and> card (failing (\<lambda>c. hc_Ping c w (WithTimeout ctx (Timeout (health_config m)))) (checkers m)) = 1
          \<longrightarrow> Status st = ''error'' \<and> card (names_with_status st ''error'') = 1
              \<and> card (names_with_status st ''ok'') = 2)"
  by (intro conjI) (rule Check_facts(1) [OF assms(2)], rule Check_facts(2) [OF assms(2)], rule Ping_facts(1) [OF assms(2)], rule Ping_facts(2) [OF assms(2)])

theorem health_status_ok_iff_every_check_ok_witness:
  "distinct [''c'', ''a'', ''b'']
   \<and> set [''c'', ''a'', ''b''] = dom (checkers (example_health (Returns (Some ''down''))))
   \<and> (\<exists>st. health_Manager_Check (example_health (Returns (Some ''down''))) example_world Background ''2024-05-01T12:00:00Z'' [''c'', ''a'', ''b''] False = Completed st
          \<and> Status st = ''error'' \<and> card (names_with_status st ''error'') = 1
          \<and> card (names_with_status st ''ok'') = 2)
   \<and> (\<exists>st. returned (health_Manager_Check (example_health (Panics ''boom'')) example_world Background ''2024-05-01T12:00:00Z'' [''c'', ''a'', ''b''] True) = Some st
          \<and> (Status st = ''ok'') = (\<forall>nm r. Checks st nm = Some r \<longrightarrow> cr_Status r = ''ok''))
   \<and> (\<exists>st. health_Manager_Ping (example_health (Returns (Some ''down''))) example_world Background ''2024-05-01T12:00:00Z'' [''c'', ''a'', ''b''] False = Completed st
          \<and> Status st = ''error'' \<and> card (names_with_status st ''error'') = 1
          \<and> card (names_with_status st ''ok'') = 2)
   \<and> (\<exists>st. returned (health_Manager_Ping (example_health (Panics ''boom'')) example_world Background ''2024-05-01T12:00:00Z'' [''c'', ''a'', ''b''] True) = Some st
          \<and> (Status st = ''ok'') = (\<forall>nm r. Checks st nm = Some r \<longrightarrow> cr_Status r = ''ok''))"
proof -
  obtain st1 where st1: "health_Manager_Check (example_health (Returns (Some ''down''))) example_world Background ''2024-05-01T12:00:00Z'' [''c'', ''a'', ''b''] False = Completed st1"
    using example_round_down(1) by blast
  have a1: "Status st1 = ''error'' \<and> card (names_with_status st1 ''error'') = 1
          \<and> card (names_with_status st1 ''ok'') = 2"
    by (rule health_status_ok_iff_every_check_ok [OF example_health_dom(3) example_health_dom(2) [of "Returns (Some ''down'')"],
          where w = example_world and ctx = Background and now = "''2024-05-01T12:00:00Z''" and b = False, THEN conjunct2, THEN conjunct1, THEN mp])
       (simp add: st1 example_health_dom(1) example_health_failing)
  obtain pt1 where pt1: "health_Manager_Check (example_health (Panics ''boom'')) example_world Background ''2024-05-01T12:00:00Z'' [''c'', ''a'', ''b''] True = Returned_then_crashed pt1 ''boom''"
    using example_round_panic(1) by blast
  then have r1: "returned (health_Manager_Check (example_health (Panics ''boom'')) example_world Background ''2024-05-01T12:00:00Z'' [''c'', ''a'', ''b''] True) = Some pt1" by (simp add: returned_simps)
  have b1: "(Status pt1 = ''ok'') = (\<forall>nm r. Checks pt1 nm = Some r \<longrightarrow> cr_Status r = ''ok'')"
    by (rule health_status_ok_iff_every_check_ok [OF example_health_dom(3) example_health_dom(2) [of "Panics ''boom''"],
          where w = example_world and ctx = Background and now = "''2024-05-01T12:00:00Z''" and b = True, THEN conjunct1, THEN mp])
       (rule r1)
  have C: "(\<exists>st. health_Manager_Check (example_health (Returns (Some ''down''))) example_world Background ''2024-05-01T12:00:00Z'' [''c'', ''a'', ''b''] False = Completed st
                \<and> Status st = ''error'' \<and> card (names_with_status st ''error'') = 1
                \<and> card (names_with_status st ''ok'') = 2)
         \<and> (\<exists>st. returned (health_Manager_Check (example_health (Panics ''boom'')) example_world Background ''2024-05-01T12:00:00Z'' [''c'', ''a'', ''b''] True) = Some st
                \<and> (Status st = ''ok'') = (\<forall>nm r. Checks st nm = Some r \<longrightarrow> cr_Status r = ''ok''))"
    using st1 a1 r1 b1 by blast
  obtain st2 where st2: "health_Manager_Ping (example_health (Returns (Some ''down''))) example_world Background ''2024-05-01T12:00:00Z'' [''c'', ''a'', ''b''] False = Completed st2"
    using example_round_down(2) by blast
  have a2: "Status st2 = ''error'' \<and> card (names_with_status st2 ''error'') = 1
          \<and> card (names_with_status st2 ''ok'') = 2"
    by (rule health_status_ok_iff_every_check_ok [OF example_health_dom(3) example_health_dom(2) [of "Returns (Some ''down'')"],
          where w = example_world and ctx = Background and now = "''2024-05-01T12:00:00Z''" and b = False, THEN conjunct2, THEN conjunct2, THEN conjunct2, THEN mp])
       (simp add: st2 example_health_dom(1) example_health_failing)
  obtain pt2 where pt2: "health_Manager_Ping (example_health (Panics ''boom'')) example_world Background ''2024-05-01T12:00:00Z'' [''c'', ''a'', ''b''] True = Returned_then_crashed pt2 ''boom''"
    using example_round_panic(2) by blast
  then have r2: "returned (health_Manager_Ping (example_health (Panics ''boom'')) example_world Background ''2024-05-01T12:00:00Z'' [''c'', ''a'', ''b''] True) = Some pt2" by (simp add: returned_simps)
  have b2: "(Status pt2 = ''ok'') = (\<forall>nm r. Checks pt2 nm = Some r \<longrightarrow> cr_Status r = ''ok'')"
    by (rule health_status_ok_iff_every_check_ok [OF example_health_dom(3) example_health_dom(2) [of "Panics ''boom''"],
          where w = example_world and ctx = Background and now = "''2024-05-01T12:00:00Z''" and b = True, THEN conjunct2, THEN conjunct2, THEN conjunct1, THEN mp])
       (rule r2)
  have P: "(\<exists>st. health_Manager_Ping (example_health (Returns (Some ''down''))) example_world Background ''2024-05-01T12:00:00Z'' [''c'', ''a'', ''b''] False = Completed st
                \<and> Status st = ''error'' \<and> card (names_with_status st ''error'') = 1
                \<and> card (names_with_status st ''ok'') = 2)
         \<and> (\<exists>st. returned (health_Manager_Ping (example_health (Panics ''boom'')) example_world Background ''2024-05-01T12:00:00Z'' [''c'', ''a'', ''b''] True) = Some st
                \<and> (Status st = ''ok'') = (\<forall>nm r. Checks st nm = Some r \<longrightarrow> cr_Status r = ''ok''))"
    using st2 a2 r2 b2 by blast
  show ?thesis using example_health_dom(3) example_health_dom(2) [of "Returns (Some ''down'')"] C P by blast
qed

subsection \<open>C4: construction of the registry is all or nothing\<close>

text \<open>
  Claim C4: \<open>NewManager\<close> constructs the instances in list order.  When the entries of \<open>pre\<close>
  construct and \<open>New\<close> fails on the next entry \<open>cfg\<close>, the call ends there, whatever follows
  in the list, with an error that names \<open>cfg\<close> and without a manager; every error of
  \<open>NewManager\<close> arises this way; and a manager that is returned holds an instance for every
  entry of the list.
\<close>

theorem NewManager_all_or_nothing:
  "(NewManager pre w h = (Ok mgr, w1, h1) \<and> New cfg w1 h1 = (Err err, w2, h2) \<longrightarrow>
      NewManager (pre @ cfg # post) w h =
        (Err (''failed to initialize database '' @ Name cfg @ '': '' @ err), w2, h2))
   \<and> (NewManager configs w h = (Err e, w', h') \<longrightarrow>
        (\<exists>pre cfg post mgr w1 h1 err. configs = pre @ cfg # post
           \<and> NewManager pre w h = (Ok mgr, w1, h1) \<and> New cfg w1 h1 = (Err err, w', h')
           \<and> e = ''failed to initialize database '' @ Name cfg @ '': '' @ err))
   \<and> (NewManager configs w h = (Ok mgr', w', h') \<longrightarrow>
        dom (databases mgr') = Name ` set configs
        \<and> (\<forall>c\<in>set configs. \<exists>db. Manager_Get mgr' (Name c) = Some db \<and> name db = Name c))"
proof (intro conjI impI)
  assume a: "NewManager pre w h = (Ok mgr, w1, h1) \<and> New cfg w1 h1 = (Err err, w2, h2)"
  have "NewManager_loop pre \<lparr>databases = Map.empty\<rparr> w h = (Ok mgr, w1, h1)"
    using a by (simp add: NewManager_def)
  moreover have "New cfg w1 h1 = (Err err, w2, h2)" using a by simp
  ultimately show "NewManager (pre @ cfg # post) w h =
        (Err (''failed to initialize database '' @ Name cfg @ '': '' @ err), w2, h2)"
    unfolding NewManager_def by (rule NewManager_loop_first_failure)
next
  assume "NewManager configs w h = (Err e, w', h')"
  then show "\<exists>pre cfg post mgr w1 h1 err. configs = pre @ cfg # post
           \<and> NewManager pre w h = (Ok mgr, w1, h1) \<and> New cfg w1 h1 = (Err err, w', h')
           \<and> e = ''failed to initialize database '' @ Name cfg @ '': '' @ err"
    unfolding NewManager_def by (rule NewManager_loop_Err)
next
  assume a: "NewManager configs w h = (Ok mgr', w', h')"
  note d = NewManager_loop_databases [OF a [unfolded NewManager_def]]
  show "dom (databases mgr') = Name ` set configs" using d by simp
  show "\<forall>c\<in>set configs. \<exists>db. Manager_Get mgr' (Name c) = Some db \<and> name db = Name c"
    using d by (simp add: Manager_Get_def)
qed

theorem NewManager_all_or_nothing_witness:
  "NewManager ([example_config ''main'' []] @ example_config ''audit'' [] # [example_config ''logs'' []])
       (unreachable [''audit-master'']) (Some example_health_manager) =
     (Err ''failed to initialize database audit: failed to connect to master database: dial tcp: connection refused'',
      set_pool_limits (example_config ''main'' []) 0 ((unreachable [''audit-master''])\<lparr>opened := Suc 0\<rparr>),
      Some (example_health_manager\<lparr>checkers :=
              [''main'' \<mapsto> DatabaseHealthChecker ''main'' \<lparr>ConnPool = 0, Ctx = Background\<rparr>]\<rparr>))
   \<and> (\<exists>pre cfg post mgr w1 h1 err.
          [example_config ''main'' []] @ example_config ''audit'' [] # [example_config ''logs'' []] = pre @ cfg # post
        \<and> NewManager pre (unreachable [''audit-master'']) (Some example_health_manager) = (Ok mgr, w1, h1)
        \<and> fst (New cfg w1 h1) = Err err
        \<and> ''failed to initialize database audit: failed to connect to master database: dial tcp: connection refused''
            = ''failed to initialize database '' @ Name cfg @ '': '' @ err)
   \<and> (\<exists>db. Manager_Get \<lparr>databases = [''main'' \<mapsto> \<lparr>name = ''main'', config = example_config ''main'' [],
                                      master = \<lparr>ConnPool = 0, Ctx = Background\<rparr>, slaves = [],
                                      slaveIndex = 0\<rparr>]\<rparr> ''main'' = Some db \<and> name db = ''main'')"
proof (intro conjI)
  let ?configs = "[example_config ''main'' []] @ example_config ''audit'' [] # [example_config ''logs'' []]"
  let ?w = "unreachable [''audit-master'']"
  let ?w1 = "set_pool_limits (example_config ''main'' []) 0 (?w\<lparr>opened := Suc 0\<rparr>)"
  let ?h1 = "Some (example_health_manager\<lparr>checkers :=
              [''main'' \<mapsto> DatabaseHealthChecker ''main'' \<lparr>ConnPool = 0, Ctx = Background\<rparr>]\<rparr>)"
  let ?e = "''failed to initialize database audit: failed to connect to master database: dial tcp: connection refused''"
  have n: "Name (example_config ''main'' []) = ''main''" by (simp add: example_config_def)
  show 1: "NewManager ?configs ?w (Some example_health_manager) = (Err ?e, ?w1, ?h1)"
    using NewManager_all_or_nothing [where pre = "[example_config ''main'' []]"
      and cfg = "example_config ''audit'' []" and post = "[example_config ''logs'' []]"
      and w = ?w and h = "Some example_health_manager",
      THEN conjunct1, rule_format, OF conjI, OF example_main_constructed example_audit_fails]
    by (simp add: example_config_def [of "''audit''"])
  from NewManager_all_or_nothing [where configs = ?configs and w = ?w and h = "Some example_health_manager"
      and e = ?e and w' = ?w1 and h' = ?h1, THEN conjunct2, THEN conjunct1, rule_format, OF 1]
  obtain pre cfg post mgr w1 h1 err where "?configs = pre @ cfg # post"
      "NewManager pre ?w (Some example_health_manager) = (Ok mgr, w1, h1)"
      "New cfg w1 h1 = (Err err, ?w1, ?h1)"
      "?e = ''failed to initialize database '' @ Name cfg @ '': '' @ err"
    by blast
  then show "\<exists>pre cfg post mgr w1 h1 err. ?configs = pre @ cfg # post
        \<and> NewManager pre ?w (Some example_health_manager) = (Ok mgr, w1, h1)
        \<and> fst (New cfg w1 h1) = Err err
        \<and> ?e = ''failed to initialize database '' @ Name cfg @ '': '' @ err"
    by (metis fst_conv)
  show "\<exists>db. Manager_Get \<lparr>databases = [''main'' \<mapsto> \<lparr>name = ''main'', config = example_config ''main'' [],
                                      master = \<lparr>ConnPool = 0, Ctx = Background\<rparr>, slaves = [],
                                      slaveIndex = 0\<rparr>]\<rparr> ''main'' = Some db \<and> name db = ''main''"
    using NewManager_all_or_nothing [where configs = "[example_config ''main'' []]" and w = ?w
        and h = "Some example_health_manager", THEN conjunct2, THEN conjunct2, rule_format,
        OF example_main_constructed]
    by (simp add: n)
qed

subsection \<open>C5: fatal and non-fatal failures of New\<close>

text \<open>
  Claim C5: in \<open>New\<close>, a failure to connect to the master is fatal, and so is a failure of
  the final \<open>SELECT 1\<close> on the master: \<open>New\<close> returns an error and no instance, and the health
  manager is left as it was.  A failure to connect to a configured slave is not fatal: when the
  master connects, no \<open>DB()\<close> call fails and the query succeeds, \<open>New\<close> returns an instance
  whose active slaves are, on fresh pools, exactly as many as the configured slaves that
  connect, with one warning logged for each slave that does not.
\<close>

theorem New_failure_policy:
  "(connect cfg (Master cfg) w = (Inl err, w1) \<longrightarrow>
      New cfg w h = (Err (''failed to connect to master database: '' @ err), w1, h))
   \<and> (connect cfg (Master cfg) w = (Inr mst, w1) \<and> GormDB_DB w1 mst = Inr sqlDB
        \<and> connect_slaves cfg 0 (Slaves cfg) [] (set_pool_limits cfg sqlDB w1) = (Ok slvs, w2)
        \<and> Exec w2 (WithContext mst Background) ''SELECT 1'' = Some err \<longrightarrow>
      New cfg w h = (Err (''failed to verify database connection: '' @ err), w2, h))
   \<and> (Exec_err w (opened w) ''SELECT 1'' = Some err \<longrightarrow> (\<forall>db. fst (New cfg w h) \<noteq> Ok db))
   \<and> (connects cfg w (Master cfg) \<and> (\<forall>p. DB_err w p = None)
        \<and> Exec_err w (opened w) ''SELECT 1'' = None \<longrightarrow>
      (\<exists>db w' h'. New cfg w h = (Ok db, w', h')
         \<and> ConnPool (master db) = opened w
         \<and> map ConnPool (slaves db) =
              [Suc (opened w)..<Suc (opened w) + length (filter (connects cfg w) (Slaves cfg))]
         \<and> length (warnings w') =
              length (warnings w) + length (filter (\<lambda>s. \<not> connects cfg w s) (Slaves cfg))))"
proof (intro conjI impI)
  assume "connect cfg (Master cfg) w = (Inl err, w1)"
  then show "New cfg w h = (Err (''failed to connect to master database: '' @ err), w1, h)"
    by (rule New_master_down)
next
  assume a: "connect cfg (Master cfg) w = (Inr mst, w1) \<and> GormDB_DB w1 mst = Inr sqlDB
        \<and> connect_slaves cfg 0 (Slaves cfg) [] (set_pool_limits cfg sqlDB w1) = (Ok slvs, w2)
        \<and> Exec w2 (WithContext mst Background) ''SELECT 1'' = Some err"
  show "New cfg w h = (Err (''failed to verify database connection: '' @ err), w2, h)"
  proof (rule New_verify_fails)
    show "connect cfg (Master cfg) w = (Inr mst, w1)" using a by simp
    show "GormDB_DB w1 mst = Inr sqlDB" using a by simp
    show "connect_slaves cfg 0 (Slaves cfg) [] (set_pool_limits cfg sqlDB w1) = (Ok slvs, w2)" using a by simp
    show "Exec w2 (WithContext mst Background) ''SELECT 1'' = Some err" using a by simp
  qed
next
  assume "Exec_err w (opened w) ''SELECT 1'' = Some err"
  then show "\<forall>db. fst (New cfg w h) \<noteq> Ok db"
    using New_verify_gate by blast
next
  assume a: "connects cfg w (Master cfg) \<and> (\<forall>p. DB_err w p = None)
        \<and> Exec_err w (opened w) ''SELECT 1'' = None"
  show "\<exists>db w' h'. New cfg w h = (Ok db, w', h')
         \<and> ConnPool (master db) = opened w
         \<and> map ConnPool (slaves db) =
              [Suc (opened w)..<Suc (opened w) + length (filter (connects cfg w) (Slaves cfg))]
         \<and> length (warnings w') =
              length (warnings w) + length (filter (\<lambda>s. \<not> connects cfg w s) (Slaves cfg))"
  proof (rule New_slaves_not_fatal)
    show "connects cfg w (Master cfg)" using a by simp
    show "\<forall>p. DB_err w p = None" using a by simp
    show "Exec_err w (opened w) ''SELECT 1'' = None" using a by simp
  qed
qed

theorem New_failure_policy_witness:
  "New (example_config ''main'' [''r1'', ''r2'']) (unreachable [''main-master'']) None
      = (Err ''failed to connect to master database: dial tcp: connection refused'',
         unreachable [''main-master''], None)
   \<and> New (example_config ''main'' []) gone_away None
      = (Err ''failed to verify database connection: server has gone away'',
         set_pool_limits (example_config ''main'' []) 0 (gone_away\<lparr>opened := Suc 0\<rparr>), None)
   \<and> (\<forall>db. fst (New (example_config ''main'' [''r1'', ''r2'']) gone_away None) \<noteq> Ok db)
   \<and> (\<exists>db w' h'. New (example_config ''main'' [''r1'', ''r2'']) (unreachable [''r1'']) None = (Ok db, w', h')
         \<and> ConnPool (master db) = 0 \<and> map ConnPool (slaves db) = [1] \<and> length (warnings w') = 1)"
proof (intro conjI)
  let ?cfg = "example_config ''main'' [''r1'', ''r2'']"
  have m: "Master ?cfg = example_instance ''main-master''"
    and s: "Slaves ?cfg = [example_instance ''r1'', example_instance ''r2'']"
    by (simp_all add: example_config_def)
  have "connect ?cfg (Master ?cfg) (unreachable [''main-master''])
          = (Inl ''dial tcp: connection refused'', unreachable [''main-master''])"
    by (simp add: m connect_example gorm_Open_def unreachable_def)
  then show "New ?cfg (unreachable [''main-master'']) None
      = (Err ''failed to connect to master database: dial tcp: connection refused'',
         unreachable [''main-master''], None)"
    using New_failure_policy [where cfg = ?cfg and w = "unreachable [''main-master'']"
        and err = "''dial tcp: connection refused''" and ?w1.0 = "unreachable [''main-master'']" and h = None]
    by simp
  let ?c0 = "example_config ''main'' []"
  let ?w1 = "gone_away\<lparr>opened := Suc 0\<rparr>"
  have m0: "Master ?c0 = example_instance ''main-master''" and s0: "Slaves ?c0 = []"
    by (simp_all add: example_config_def)
  have "connect ?c0 (Master ?c0) gone_away = (Inr \<lparr>ConnPool = 0, Ctx = Background\<rparr>, ?w1)
      \<and> GormDB_DB ?w1 \<lparr>ConnPool = 0, Ctx = Background\<rparr> = Inr 0
      \<and> connect_slaves ?c0 0 (Slaves ?c0) [] (set_pool_limits ?c0 0 ?w1) = (Ok [], set_pool_limits ?c0 0 ?w1)
      \<and> Exec (set_pool_limits ?c0 0 ?w1) (WithContext \<lparr>ConnPool = 0, Ctx = Background\<rparr> Background) ''SELECT 1''
          = Some ''server has gone away''"
    by (simp add: m0 s0 connect_example gorm_Open_def GormDB_DB_def Exec_def WithContext_def
        set_pool_limits_def gone_away_def example_world_def)
  then show "New ?c0 gone_away None
      = (Err ''failed to verify database connection: server has gone away'',
         set_pool_limits ?c0 0 ?w1, None)"
    using New_failure_policy [where cfg = ?c0 and w = gone_away and h = None
        and mst = "\<lparr>ConnPool = 0, Ctx = Background\<rparr>" and ?w1.0 = ?w1 and sqlDB = 0 and slvs = "[]"
        and ?w2.0 = "set_pool_limits ?c0 0 ?w1" and err = "''server has gone away''"]
    by simp
  have "Exec_err gone_away (opened gone_away) ''SELECT 1'' = Some ''server has gone away''"
    by (simp add: gone_away_def example_world_def)
  then show "\<forall>db. fst (New ?cfg gone_away None) \<noteq> Ok db"
    using New_failure_policy [where cfg = ?cfg and w = gone_away and h = None
        and err = "''server has gone away''"]
    by blast
  have "connects ?cfg (unreachable [''r1'']) (Master ?cfg) \<and> (\<forall>p. DB_err (unreachable [''r1'']) p = None)
        \<and> Exec_err (unreachable [''r1'']) (opened (unreachable [''r1''])) ''SELECT 1'' = None"
    by (simp add: m connects_example unreachable_fields)
  then have "\<exists>db w' h'. New ?cfg (unreachable [''r1'']) None = (Ok db, w', h')
         \<and> ConnPool (master db) = opened (unreachable [''r1''])
         \<and> map ConnPool (slaves db) =
              [Suc (opened (unreachable [''r1'']))..<Suc (opened (unreachable [''r1''])) + length (filter (connects ?cfg (unreachable [''r1''])) (Slaves ?cfg))]
         \<and> length (warnings w') =
              length (warnings (unreachable [''r1''])) + length (filter (\<lambda>s. \<not> connects ?cfg (unreachable [''r1'']) s) (Slaves ?cfg))"
    using New_failure_policy [where cfg = ?cfg and w = "unreachable [''r1'']" and h = None]
    by blast
  then show "\<exists>db w' h'. New ?cfg (unreachable [''r1'']) None = (Ok db, w', h')
         \<and> ConnPool (master db) = 0 \<and> map ConnPool (slaves db) = [1] \<and> length (warnings w') = 1"
    by (simp add: s connects_example unreachable_fields)
qed

subsection \<open>C6: a later registration overwrites\<close>

text \<open>
  Claim C6: for two checkers \<open>A\<close> and \<open>A'\<close> with the same name, \<open>Register(A)\<close> followed by
  \<open>Register(A')\<close> returns no error either time and leaves the registry as it was except for
  the one entry under that name, which holds \<open>A'\<close>.
\<close>

theorem Register_overwrites:
  assumes "hc_Name A = hc_Name A'"
  shows "fst (health_Manager_Register m A) = None
       \<and> fst (health_Manager_Register (snd (health_Manager_Register m A)) A') = None
       \<and> checkers (snd (health_Manager_Register (snd (health_Manager_Register m A)) A'))
           = (checkers m)(hc_Name A \<mapsto> A')
       \<and> dom (checkers (snd (health_Manager_Register (snd (health_Manager_Register m A)) A')))
           = insert (hc_Name A) (dom (checkers m))"
  using assms by (simp add: health_Manager_Register_def)

theorem Register_overwrites_witness:
  "hc_Name (stub_checker ''main'' (Returns None)) = hc_Name (stub_checker ''main'' (Returns (Some ''down'')))
   \<and> checkers (snd (health_Manager_Register
         (snd (health_Manager_Register (health_NewManager \<lparr>Timeout = 5, Detailed = True\<rparr>)
                 (stub_checker ''main'' (Returns None))))
         (stub_checker ''main'' (Returns (Some ''down'')))))
       = [''main'' \<mapsto> stub_checker ''main'' (Returns (Some ''down''))]
   \<and> dom (checkers (snd (health_Manager_Register
         (snd (health_Manager_Register (health_NewManager \<lparr>Timeout = 5, Detailed = True\<rparr>)
                 (stub_checker ''main'' (Returns None))))
         (stub_checker ''main'' (Returns (Some ''down'')))))) = {''main''}"
proof -
  have n: "hc_Name (stub_checker ''main'' (Returns None)) = hc_Name (stub_checker ''main'' (Returns (Some ''down'')))"
    by (simp add: stub_checker_def)
  have e: "checkers (health_NewManager \<lparr>Timeout = 5, Detailed = True\<rparr>) = Map.empty"
    "hc_Name (stub_checker ''main'' (Returns None)) = ''main''"
    by (simp_all add: health_NewManager_def stub_checker_def)
  show ?thesis
    using Register_overwrites [OF n, of "health_NewManager \<lparr>Timeout = 5, Detailed = True\<rparr>"] n
    by (simp only: e dom_empty) simp
qed

subsection \<open>C7: isolation of the tasks\<close>

text \<open>
  Claim C7, as stated, fails for a panic: no task of the round recovers from a panic, so a
  panic in the probe of checker \<open>b\<close> ends the process in every run, for \<open>Check\<close> and for
  \<open>Ping\<close>, and in the runs in which the runtime exits before \<open>wg.Wait()\<close> returns the call
  hands no status to its caller.
\<close>

theorem health_panic_not_isolated:
  "crash (health_Manager_Check (example_health (Panics ''boom'')) example_world Background
       ''2024-05-01T12:00:00Z'' [''a'', ''b'', ''c''] True) = Some ''boom''
   \<and> crash (health_Manager_Check (example_health (Panics ''boom'')) example_world Background
       ''2024-05-01T12:00:00Z'' [''a'', ''b'', ''c''] False) = Some ''boom''
   \<and> returned (health_Manager_Check (example_health (Panics ''boom'')) example_world Background
       ''2024-05-01T12:00:00Z'' [''a'', ''b'', ''c''] False) = None
   \<and> crash (health_Manager_Ping (example_health (Panics ''boom'')) example_world Background
       ''2024-05-01T12:00:00Z'' [''a'', ''b'', ''c''] True) = Some ''boom''
   \<and> crash (health_Manager_Ping (example_health (Panics ''boom'')) example_world Background
       ''2024-05-01T12:00:00Z'' [''a'', ''b'', ''c''] False) = Some ''boom''
   \<and> returned (health_Manager_Ping (example_health (Panics ''boom'')) example_world Background
       ''2024-05-01T12:00:00Z'' [''a'', ''b'', ''c''] False) = None"
proof -
  have o: "[''a'', ''b'', ''c''] = [''c'', ''a'', ''b''] \<or> [''a'', ''b'', ''c''] = [''a'', ''b'', ''c'']"
    by simp
  obtain st where c: "health_Manager_Check (example_health (Panics ''boom'')) example_world Background
       ''2024-05-01T12:00:00Z'' [''a'', ''b'', ''c''] True = Returned_then_crashed st ''boom''"
    using example_round_panic(1) [OF o] by blast
  obtain pt where p: "health_Manager_Ping (example_health (Panics ''boom'')) example_world Background
       ''2024-05-01T12:00:00Z'' [''a'', ''b'', ''c''] True = Returned_then_crashed pt ''boom''"
    using example_round_panic(2) [OF o] by blast
  show ?thesis
    by (simp add: c p example_round_panic(3,4) [OF o] returned_simps)
qed

text \<open>
  Claim C7, amended: when no registered probe panics, the call completes with a status for
  every schedule, whatever errors the probes return, and for every checker \<open>f\<close> each other
  checker has the same recorded result as in the round over the registry without \<open>f\<close>.  When
  the probe of some registered checker panics, the process ends, and the call does not return
  when the runtime exits first.  Every status a call does return, with or without a panic,
  agrees on each checker other than \<open>f\<close> with every status returned by the round over the
  registry without \<open>f\<close>.
\<close>

theorem health_error_isolated:
  assumes "distinct order" and "set order = dom (checkers m)"
  shows "((\<forall>nm c. checkers m nm = Some c \<longrightarrow> (\<exists>err. hc_Check c w (WithTimeout ctx (Timeout (health_config m))) = Returns err)) \<longrightarrow>
          (\<exists>st st'. health_Manager_Check m w ctx now order b = Completed st
             \<and> health_Manager_Check (m\<lparr>checkers := (checkers m)(f := None)\<rparr>) w ctx now (removeAll f order) b'
                   = Completed st'
             \<and> (\<forall>nm. nm \<noteq> f \<longrightarrow> Checks st nm = Checks st' nm)))
       \<and> ((\<exists>nm c p. checkers m nm = Some c \<and> hc_Check c w (WithTimeout ctx (Timeout (health_config m))) = Panics p) \<longrightarrow>
          (\<exists>q. crash (health_Manager_Check m w ctx now order b) = Some q)
          \<and> returned (health_Manager_Check m w ctx now order False) = None)
       \<and> (returned (health_Manager_Check m w ctx now order b) = Some st
          \<and> returned (health_Manager_Check (m\<lparr>checkers := (checkers m)(f := None)\<rparr>) w ctx now
                (removeAll f order) b') = Some st' \<longrightarrow>
          (\<forall>nm. nm \<noteq> f \<longrightarrow> Checks st nm = Checks st' nm))
       \<and> ((\<forall>nm c. checkers m nm = Some c \<longrightarrow> (\<exists>err. hc_Ping c w (WithTimeout ctx (Timeout (health_config m))) = Returns err)) \<longrightarrow>
          (\<exists>st st'. health_Manager_Ping m w ctx now order b = Completed st
             \<and> health_Manager_Ping (m\<lparr>checkers := (checkers m)(f := None)\<rparr>) w ctx now (removeAll f order) b'
                   = Completed st'
             \<and> (\<forall>nm. nm \<noteq> f \<longrightarrow> Checks st nm = Checks st' nm)))
       \<and> ((\<exists>nm c p. checkers m nm = Some c \<and> hc_Ping c w (WithTimeout ctx (Timeout (health_config m))) = Panics p) \<longrightarrow>
          (\<exists>q. crash (health_Manager_Ping m w ctx now order b) = Some q)
          \<and> returned (health_Manager_Ping m w ctx now order False) = None)
       \<and> (returned (health_Manager_Ping m w ctx now order b) = Some st
          \<and> returned (health_Manager_Ping (m\<lparr>checkers := (checkers m)(f := None)\<rparr>) w ctx now
                (removeAll f order) b') = Some st' \<longrightarrow>
          (\<forall>nm. nm \<noteq> f \<longrightarrow> Checks st nm = Checks st' nm))"
  by (intro conjI) (rule Check_facts(6) [OF assms(2)], rule Check_facts(7) [OF assms(2)], rule Check_facts(8) [OF assms(2)], rule Ping_facts(6) [OF assms(2)], rule Ping_facts(7) [OF assms(2)], rule Ping_facts(8) [OF assms(2)])

theorem health_error_isolated_witness:
  "distinct [''c'', ''a'', ''b'']
   \<and> set [''c'', ''a'', ''b''] = dom (checkers (example_health (Returns (Some ''down''))))
   \<and> set [''c'', ''a'', ''b''] = dom (checkers (example_health (Panics ''boom'')))
   \<and> (\<exists>st st'. health_Manager_Check (example_health (Returns (Some ''down''))) example_world Background
              ''2024-05-01T12:00:00Z'' [''c'', ''a'', ''b''] False = Completed st
          \<and> health_Manager_Check
               ((example_health (Returns (Some ''down'')))
                  \<lparr>checkers := (checkers (example_health (Returns (Some ''down''))))(''b'' := None)\<rparr>)
               example_world Background ''2024-05-01T12:00:00Z'' [''c'', ''a''] False = Completed st'
          \<and> Checks st ''a'' = Checks st' ''a'' \<and> Checks st ''c'' = Checks st' ''c'')
   \<and> (\<exists>q. crash (health_Manager_Check (example_health (Panics ''boom'')) example_world Background
              ''2024-05-01T12:00:00Z'' [''c'', ''a'', ''b''] True) = Some q)
   \<and> returned (health_Manager_Check (example_health (Panics ''boom'')) example_world Background
              ''2024-05-01T12:00:00Z'' [''c'', ''a'', ''b''] False) = None
   \<and> (\<exists>st st'. returned (health_Manager_Check (example_health (Panics ''boom'')) example_world Background
              ''2024-05-01T12:00:00Z'' [''c'', ''a'', ''b''] True) = Some st
          \<and> returned (health_Manager_Check
               ((example_health (Panics ''boom''))
                  \<lparr>checkers := (checkers (example_health (Panics ''boom'')))(''b'' := None)\<rparr>)
               example_world Background ''2024-05-01T12:00:00Z'' [''c'', ''a''] False) = Some st'
          \<and> Checks st ''a'' = Checks st' ''a'' \<and> Checks st ''c'' = Checks st' ''c'')
   \<and> (\<exists>st st'. health_Manager_Ping (example_health (Returns (Some ''down''))) example_world Background
              ''2024-05-01T12:00:00Z'' [''c'', ''a'', ''b''] False = Completed st
          \<and> health_Manager_Ping
               ((example_health (Returns (Some ''down'')))
                  \<lparr>checkers := (checkers (example_health (Returns (Some ''down''))))(''b'' := None)\<rparr>)
               example_world Background ''2024-05-01T12:00:00Z'' [''c'', ''a''] False = Completed st'
          \<and> Checks st ''a'' = Checks st' ''a'' \<and> Checks st ''c'' = Checks st' ''c'')
   \<and> (\<exists>q. crash (health_Manager_Ping (example_health (Panics ''boom'')) example_world Background
              ''2024-05-01T12:00:00Z'' [''c'', ''a'', ''b''] True) = Some q)
   \<and> returned (health_Manager_Ping (example_health (Panics ''boom'')) example_world Background
              ''2024-05-01T12:00:00Z'' [''c'', ''a'', ''b''] False) = None"
proof -
  let ?d = "example_health (Returns (Some ''down''))"
  let ?p = "example_health (Panics ''boom'')"
  have r: "removeAll ''b'' [''c'', ''a'', ''b''] = [''c'', ''a'']" by simp
  note td = health_error_isolated [OF example_health_dom(3) example_health_dom(2) [of "Returns (Some ''down'')"],
      where w = example_world and ctx = Background and now = "''2024-05-01T12:00:00Z''" and b = False
        and b' = False and f = "''b''", unfolded r]
  note tp = health_error_isolated [OF example_health_dom(3) example_health_dom(2) [of "Panics ''boom''"],
      where w = example_world and ctx = Background and now = "''2024-05-01T12:00:00Z''" and b = True
        and b' = False and f = "''b''", unfolded r]
  from td [THEN conjunct1, THEN mp, OF example_health_returns(1)]
  obtain st st' where a: "health_Manager_Check ?d example_world Background
              ''2024-05-01T12:00:00Z'' [''c'', ''a'', ''b''] False = Completed st"
      "health_Manager_Check (?d\<lparr>checkers := (checkers ?d)(''b'' := None)\<rparr>)
               example_world Background ''2024-05-01T12:00:00Z'' [''c'', ''a''] False = Completed st'"
      "\<forall>nm. nm \<noteq> ''b'' \<longrightarrow> Checks st nm = Checks st' nm"
    by blast
  have "Checks st ''a'' = Checks st' ''a''" "Checks st ''c'' = Checks st' ''c''"
    using a(3) by simp_all
  with a(1,2) have 1: "\<exists>st st'. health_Manager_Check ?d example_world Background
              ''2024-05-01T12:00:00Z'' [''c'', ''a'', ''b''] False = Completed st
          \<and> health_Manager_Check (?d\<lparr>checkers := (checkers ?d)(''b'' := None)\<rparr>)
               example_world Background ''2024-05-01T12:00:00Z'' [''c'', ''a''] False = Completed st'
          \<and> Checks st ''a'' = Checks st' ''a'' \<and> Checks st ''c'' = Checks st' ''c''"
    by (intro exI conjI)
  from td [THEN conjunct2, THEN conjunct2, THEN conjunct2, THEN conjunct1, THEN mp, OF example_health_returns(2)]
  obtain pt pt' where b: "health_Manager_Ping ?d example_world Background
              ''2024-05-01T12:00:00Z'' [''c'', ''a'', ''b''] False = Completed pt"
      "health_Manager_Ping (?d\<lparr>checkers := (checkers ?d)(''b'' := None)\<rparr>)
               example_world Background ''2024-05-01T12:00:00Z'' [''c'', ''a''] False = Completed pt'"
      "\<forall>nm. nm \<noteq> ''b'' \<longrightarrow> Checks pt nm = Checks pt' nm"
    by blast
  have "Checks pt ''a'' = Checks pt' ''a''" "Checks pt ''c'' = Checks pt' ''c''"
    using b(3) by simp_all
  with b(1,2) have 2: "\<exists>st st'. health_Manager_Ping ?d example_world Background
              ''2024-05-01T12:00:00Z'' [''c'', ''a'', ''b''] False = Completed st
          \<and> health_Manager_Ping (?d\<lparr>checkers := (checkers ?d)(''b'' := None)\<rparr>)
               example_world Background ''2024-05-01T12:00:00Z'' [''c'', ''a''] False = Completed st'
          \<and> Checks st ''a'' = Checks st' ''a'' \<and> Checks st ''c'' = Checks st' ''c''"
    by (intro exI conjI)
  note cc = tp [THEN conjunct2, THEN conjunct1, THEN mp, OF example_health_panics(1)]
  note cp = tp [THEN conjunct2, THEN conjunct2, THEN conjunct2, THEN conjunct2, THEN conjunct1, THEN mp,
      OF example_health_panics(2)]
  obtain rt where "health_Manager_Check ?p example_world Background
       ''2024-05-01T12:00:00Z'' [''c'', ''a'', ''b''] True = Returned_then_crashed rt ''boom''"
    using example_round_panic(1) by blast
  then have r1: "returned (health_Manager_Check ?p example_world Background
       ''2024-05-01T12:00:00Z'' [''c'', ''a'', ''b''] True) = Some rt"
    by (simp add: returned_simps)
  obtain rt' where "health_Manager_Check (?p\<lparr>checkers := (checkers ?p)(''b'' := None)\<rparr>)
               example_world Background ''2024-05-01T12:00:00Z'' [''c'', ''a''] False = Completed rt'"
    using example_round_without_b(1) by blast
  then have r2: "returned (health_Manager_Check (?p\<lparr>checkers := (checkers ?p)(''b'' := None)\<rparr>)
               example_world Background ''2024-05-01T12:00:00Z'' [''c'', ''a''] False) = Some rt'"
    by (simp add: returned_simps)
  have "\<forall>nm. nm \<noteq> ''b'' \<longrightarrow> Checks rt nm = Checks rt' nm"
    by (rule tp [where st = rt and st' = rt', THEN conjunct2, THEN conjunct2, THEN conjunct1, THEN mp])
       (rule conjI [OF r1 r2])
  then have "Checks rt ''a'' = Checks rt' ''a''" "Checks rt ''c'' = Checks rt' ''c''"
    by simp_all
  with r1 r2 have 3: "\<exists>st st'. returned (health_Manager_Check ?p example_world Background
              ''2024-05-01T12:00:00Z'' [''c'', ''a'', ''b''] True) = Some st
          \<and> returned (health_Manager_Check (?p\<lparr>checkers := (checkers ?p)(''b'' := None)\<rparr>)
               example_world Background ''2024-05-01T12:00:00Z'' [''c'', ''a''] False) = Some st'
          \<and> Checks st ''a'' = Checks st' ''a'' \<and> Checks st ''c'' = Checks st' ''c''"
    by (intro exI conjI)
  show ?thesis
    using example_health_dom(3) example_health_dom(2) [of "Returns (Some ''down'')"]
      example_health_dom(2) [of "Panics ''boom''"] 1 cc [THEN conjunct1] cc [THEN conjunct2] 3
      2 cp [THEN conjunct1] cp [THEN conjunct2]
    by (intro conjI)
qed

subsection \<open>C8: Close never reports a failure\<close>

text \<open>
  Claim C8: \<open>Database.Close\<close> and \<open>Manager.Close\<close> return nil in every world, also when
  \<open>DB()\<close> or \<open>Close\<close> fails on a pool; \<open>Manager.Close\<close> prints no warning either.
\<close>

theorem Close_always_returns_nil:
  "fst (Database_Close d w) = None \<and> fst (Manager_Close m order w) = None
   \<and> stdout (snd (Manager_Close m order w)) = stdout w"
  by (simp add: Database_Close_result(1) Manager_Close_stdout) (simp add: Manager_Close_def)

theorem Close_always_returns_nil_witness:
  "fst (Database_Close (example_db 2) close_fails) = None
   \<and> closed (snd (Database_Close (example_db 2) close_fails)) = [0, 1, 2]
   \<and> fst (Manager_Close \<lparr>databases = [''main'' \<mapsto> example_db 2]\<rparr> [''main''] close_fails) = None
   \<and> stdout (snd (Manager_Close \<lparr>databases = [''main'' \<mapsto> example_db 2]\<rparr> [''main''] close_fails)) = []"
proof -
  have s: "slaves (example_db 2) = [\<lparr>ConnPool = 1, Ctx = Background\<rparr>, \<lparr>ConnPool = 2, Ctx = Background\<rparr>]"
    "master (example_db 2) = \<lparr>ConnPool = 0, Ctx = Background\<rparr>"
    by (simp_all add: example_db_def upt_conv_Cons)
  have "closed (snd (Database_Close (example_db 2) close_fails)) = [0, 1, 2]"
    by (simp add: Database_Close_def s GormDB_DB_def sqlDB_Close_def close_fails_def example_world_def)
  moreover have "stdout close_fails = []" by (simp add: close_fails_def example_world_def)
  ultimately show ?thesis
    using Close_always_returns_nil [of "example_db 2" close_fails
        "\<lparr>databases = [''main'' \<mapsto> example_db 2]\<rparr>" "[''main'']"]
    by simp
qed

subsection \<open>C9: one result per checker whose probe returns\<close>

text \<open>
  Claim C9, as stated, fails when a probe panics and the call still returns: the task of
  \<open>b\<close> runs its deferred \<open>wg.Done()\<close> without recording anything, \<open>wg.Wait()\<close> returns, and
  the status handed to the caller has the keys \<open>a\<close> and \<open>c\<close> only, while \<open>a\<close>, \<open>b\<close> and
  \<open>c\<close> are registered.
\<close>

theorem health_checks_miss_panicking:
  "returned (health_Manager_Check (example_health (Panics ''boom'')) example_world Background
       ''2024-05-01T12:00:00Z'' [''c'', ''a'', ''b''] True) \<noteq> None
   \<and> dom (Checks (the (returned (health_Manager_Check (example_health (Panics ''boom'')) example_world
       Background ''2024-05-01T12:00:00Z'' [''c'', ''a'', ''b''] True)))) = {''a'', ''c''}
   \<and> returned (health_Manager_Ping (example_health (Panics ''boom'')) example_world Background
       ''2024-05-01T12:00:00Z'' [''c'', ''a'', ''b''] True) \<noteq> None
   \<and> dom (Checks (the (returned (health_Manager_Ping (example_health (Panics ''boom'')) example_world
       Background ''2024-05-01T12:00:00Z'' [''c'', ''a'', ''b''] True)))) = {''a'', ''c''}
   \<and> dom (checkers (example_health (Panics ''boom''))) = {''a'', ''b'', ''c''}"
proof -
  obtain st where "health_Manager_Check (example_health (Panics ''boom'')) example_world Background
       ''2024-05-01T12:00:00Z'' [''c'', ''a'', ''b''] True = Returned_then_crashed st ''boom''"
    using example_round_panic(1) by blast
  then have 1: "returned (health_Manager_Check (example_health (Panics ''boom'')) example_world Background
       ''2024-05-01T12:00:00Z'' [''c'', ''a'', ''b''] True) \<noteq> None"
    by (simp add: returned_simps)
  obtain pt where "health_Manager_Ping (example_health (Panics ''boom'')) example_world Background
       ''2024-05-01T12:00:00Z'' [''c'', ''a'', ''b''] True = Returned_then_crashed pt ''boom''"
    using example_round_panic(2) by blast
  then have 2: "returned (health_Manager_Ping (example_health (Panics ''boom'')) example_world Background
       ''2024-05-01T12:00:00Z'' [''c'', ''a'', ''b''] True) \<noteq> None"
    by (simp add: returned_simps)
  show ?thesis
    using 1 2 example_panic_keys example_health_dom(1) [of "Panics ''boom''"] by (intro conjI)
qed

text \<open>
  Claim C9, amended: for every schedule, the \<open>Checks\<close> map of a status returned by \<open>Check\<close>
  or \<open>Ping\<close> has as its keys exactly the registered names whose probe returned, with or
  without an error; the keys are exactly the registered names when the round completes, and
  it completes whenever no registered probe panics.
\<close>

theorem health_checks_cover_returning:
  assumes "distinct order" and "set order = dom (checkers m)"
  shows "(returned (health_Manager_Check m w ctx now order b) = Some st \<longrightarrow>
            dom (Checks st) = returning (\<lambda>c. hc_Check c w (WithTimeout ctx (Timeout (health_config m)))) (checkers m))
       \<and> (health_Manager_Check m w ctx now order b = Completed st \<longrightarrow> dom (Checks st) = dom (checkers m))
       \<and> ((\<forall>nm c. checkers m nm = Some c \<longrightarrow> (\<exists>err. hc_Check c w (WithTimeout ctx (Timeout (health_config m))) = Returns err)) \<longrightarrow>
            (\<exists>st. health_Manager_Check m w ctx now order b = Completed st
               \<and> dom (Checks st) = dom (checkers m)))
       \<and> (returned (health_Manager_Ping m w ctx now order b) = Some st \<longrightarrow>
            dom (Checks st) = returning (\<lambda>c. hc_Ping c w (WithTimeout ctx (Timeout (health_config m)))) (checkers m))
       \<and> (health_Manager_Ping m w ctx now order b = Completed st \<longrightarrow> dom (Checks st) = dom (checkers m))
       \<and> ((\<forall>nm c. checkers m nm = Some c \<longrightarrow> (\<exists>err. hc_Ping c w (WithTimeout ctx (Timeout (health_config m))) = Returns err)) \<longrightarrow>
            (\<exists>st. health_Manager_Ping m w ctx now order b = Completed st
               \<and> dom (Checks st) = dom (checkers m)))"
  by (intro conjI) (rule Check_facts(3) [OF assms(2)], rule Check_facts(4) [OF assms(2)], rule Check_facts(5) [OF assms(2)], rule Ping_facts(3) [OF assms(2)], rule Ping_facts(4) [OF assms(2)], rule Ping_facts(5) [OF assms(2)])

theorem health_checks_cover_returning_witness:
  "distinct [''c'', ''a'', ''b'']
   \<and> set [''c'', ''a'', ''b''] = dom (checkers (example_health (Panics ''boom'')))
   \<and> set [''c'', ''a'', ''b''] = dom (checkers (example_health (Returns (Some ''down''))))
   \<and> (\<exists>st. returned (health_Manager_Check (example_health (Panics ''boom'')) example_world Background
              ''2024-05-01T12:00:00Z'' [''c'', ''a'', ''b''] True) = Some st
          \<and> dom (Checks st) = {''a'', ''c''})
   \<and> (\<exists>st. health_Manager_Check (example_health (Returns (Some ''down''))) example_world Background
              ''2024-05-01T12:00:00Z'' [''c'', ''a'', ''b''] False = Completed st
          \<and> dom (Checks st) = {''a'', ''b'', ''c''})
   \<and> (\<exists>st. returned (health_Manager_Ping (example_health (Panics ''boom'')) example_world Background
              ''2024-05-01T12:00:00Z'' [''c'', ''a'', ''b''] True) = Some st
          \<and> dom (Checks st) = {''a'', ''c''})
   \<and> (\<exists>st. health_Manager_Ping (example_health (Returns (Some ''down''))) example_world Background
              ''2024-05-01T12:00:00Z'' [''c'', ''a'', ''b''] False = Completed st
          \<and> dom (Checks st) = {''a'', ''b'', ''c''})"
proof -
  note tp = health_checks_cover_returning [OF example_health_dom(3) example_health_dom(2) [of "Panics ''boom''"],
      where w = example_world and ctx = Background and now = "''2024-05-01T12:00:00Z''" and b = True]
  note td = health_checks_cover_returning [OF example_health_dom(3) example_health_dom(2) [of "Returns (Some ''down'')"],
      where w = example_world and ctx = Background and now = "''2024-05-01T12:00:00Z''" and b = False]
  obtain st where "health_Manager_Check (example_health (Panics ''boom'')) example_world Background
       ''2024-05-01T12:00:00Z'' [''c'', ''a'', ''b''] True = Returned_then_crashed st ''boom''"
    using example_round_panic(1) by blast
  then have r1: "returned (health_Manager_Check (example_health (Panics ''boom'')) example_world Background
       ''2024-05-01T12:00:00Z'' [''c'', ''a'', ''b''] True) = Some st"
    by (simp add: returned_simps)
  have "dom (Checks st) = returning (\<lambda>c. hc_Check c example_world
            (WithTimeout Background (Timeout (health_config (example_health (Panics ''boom''))))))
          (checkers (example_health (Panics ''boom'')))"
    by (rule tp [THEN conjunct1, THEN mp]) (rule r1)
  then have k1: "dom (Checks st) = {''a'', ''c''}" by (simp only: example_health_returning)
  obtain pt where "health_Manager_Ping (example_health (Panics ''boom'')) example_world Background
       ''2024-05-01T12:00:00Z'' [''c'', ''a'', ''b''] True = Returned_then_crashed pt ''boom''"
    using example_round_panic(2) by blast
  then have r2: "returned (health_Manager_Ping (example_health (Panics ''boom'')) example_world Background
       ''2024-05-01T12:00:00Z'' [''c'', ''a'', ''b''] True) = Some pt"
    by (simp add: returned_simps)
  have "dom (Checks pt) = returning (\<lambda>c. hc_Ping c example_world
            (WithTimeout Background (Timeout (health_config (example_health (Panics ''boom''))))))
          (checkers (example_health (Panics ''boom'')))"
    by (rule tp [THEN conjunct2, THEN conjunct2, THEN conjunct2, THEN conjunct1, THEN mp]) (rule r2)
  then have k2: "dom (Checks pt) = {''a'', ''c''}" by (simp only: example_health_returning)
  have 3: "\<exists>st. health_Manager_Check (example_health (Returns (Some ''down''))) example_world Background
              ''2024-05-01T12:00:00Z'' [''c'', ''a'', ''b''] False = Completed st
          \<and> dom (Checks st) = {''a'', ''b'', ''c''}"
    using td [THEN conjunct2, THEN conjunct2, THEN conjunct1, THEN mp, OF example_health_returns(1)]
    by (simp only: example_health_dom(1))
  have 4: "\<exists>st. health_Manager_Ping (example_health (Returns (Some ''down''))) example_world Background
              ''2024-05-01T12:00:00Z'' [''c'', ''a'', ''b''] False = Completed st
          \<and> dom (Checks st) = {''a'', ''b'', ''c''}"
    using td [THEN conjunct2, THEN conjunct2, THEN conjunct2, THEN conjunct2, THEN conjunct2, THEN mp,
        OF example_health_returns(2)]
    by (simp only: example_health_dom(1))
  have 1: "\<exists>st. returned (health_Manager_Check (example_health (Panics ''boom'')) example_world Background
              ''2024-05-01T12:00:00Z'' [''c'', ''a'', ''b''] True) = Some st
          \<and> dom (Checks st) = {''a'', ''c''}"
    using r1 k1 by (intro exI conjI)
  have 2: "\<exists>st. returned (health_Manager_Ping (example_health (Panics ''boom'')) example_world Background
              ''2024-05-01T12:00:00Z'' [''c'', ''a'', ''b''] True) = Some st
          \<and> dom (Checks st) = {''a'', ''c''}"
    using r2 k2 by (intro exI conjI)
  show ?thesis
    using example_health_dom(3) example_health_dom(2) [of "Panics ''boom''"]
      example_health_dom(2) [of "Returns (Some ''down'')"] 1 3 2 4
    by (intro conjI)
qed

subsection \<open>C10: registrations survive a failed construction of the registry\<close>

text \<open>
  Claim C10: when the entries of \<open>pre\<close> construct and \<open>New\<close> fails on the next entry,
  \<open>NewManager\<close> returns an error and the health manager keeps the checkers registered by the
  instances of \<open>pre\<close>: its names are the former names and those of \<open>pre\<close>, each name of
  \<open>pre\<close> holds the checker of the instance constructed under it, and every other entry is
  unchanged.
\<close>

theorem NewManager_failure_keeps_registrations:
  assumes "NewManager pre w (Some hm) = (Ok mgr, w1, h1)" and "New cfg w1 h1 = (Err err, w2, h2)"
  shows "\<exists>hm'. NewManager (pre @ cfg # post) w (Some hm) =
            (Err (''failed to initialize database '' @ Name cfg @ '': '' @ err), w2, Some hm')
       \<and> dom (checkers hm') = dom (checkers hm) \<union> Name ` set pre
       \<and> (\<forall>c\<in>set pre. \<exists>db. Manager_Get mgr (Name c) = Some db
              \<and> checkers hm' (Name c) = Some (DatabaseHealthChecker (Name c) (master db)))
       \<and> (\<forall>nm. nm \<notin> Name ` set pre \<longrightarrow> checkers hm' nm = checkers hm nm)"
proof -
  from NewManager_loop_checkers [OF assms(1) [unfolded NewManager_def]]
  obtain hm' where c: "h1 = Some hm'" "dom (checkers hm') = dom (checkers hm) \<union> Name ` set pre"
    "\<forall>nm\<in>Name ` set pre. \<exists>db. databases mgr nm = Some db
              \<and> checkers hm' nm = Some (DatabaseHealthChecker nm (master db))"
    "\<forall>nm. nm \<notin> Name ` set pre \<longrightarrow> checkers hm' nm = checkers hm nm"
    by blast
  have "h2 = h1" using New_not_Ok_frame [OF assms(2)] by simp
  then have "NewManager (pre @ cfg # post) w (Some hm) =
            (Err (''failed to initialize database '' @ Name cfg @ '': '' @ err), w2, Some hm')"
    using NewManager_loop_first_failure [OF assms(1) [unfolded NewManager_def] assms(2)] c(1)
    by (simp add: NewManager_def)
  moreover have "\<forall>c\<in>set pre. \<exists>db. Manager_Get mgr (Name c) = Some db
              \<and> checkers hm' (Name c) = Some (DatabaseHealthChecker (Name c) (master db))"
    using c(3) by (simp add: Manager_Get_def)
  ultimately show ?thesis using c(2,4) by blast
qed

theorem NewManager_failure_keeps_registrations_witness:
  "\<exists>hm'. snd (snd (NewManager ([example_config ''main'' []] @ example_config ''audit'' [] # [example_config ''logs'' []])
                      (unreachable [''audit-master'']) (Some example_health_manager))) = Some hm'
     \<and> dom (checkers hm') = {''main''}
     \<and> checkers hm' ''main'' = Some (DatabaseHealthChecker ''main'' \<lparr>ConnPool = 0, Ctx = Background\<rparr>)"
proof -
  from NewManager_failure_keeps_registrations [OF example_main_constructed example_audit_fails,
      of "[example_config ''logs'' []]"]
  obtain hm' where a: "NewManager ([example_config ''main'' []] @ example_config ''audit'' [] # [example_config ''logs'' []])
         (unreachable [''audit-master'']) (Some example_health_manager) =
        (Err (''failed to initialize database '' @ Name (example_config ''audit'' []) @ '': ''
              @ ''failed to connect to master database: dial tcp: connection refused''),
         set_pool_limits (example_config ''main'' []) 0 ((unreachable [''audit-master''])\<lparr>opened := Suc 0\<rparr>),
         Some hm')"
    and b: "dom (checkers hm') = dom (checkers example_health_manager) \<union> Name ` set [example_config ''main'' []]"
    and c: "\<forall>c\<in>set [example_config ''main'' []]. \<exists>db.
              Manager_Get \<lparr>databases = [''main'' \<mapsto> \<lparr>name = ''main'', config = example_config ''main'' [],
                                      master = \<lparr>ConnPool = 0, Ctx = Background\<rparr>, slaves = [],
                                      slaveIndex = 0\<rparr>]\<rparr> (Name c) = Some db
              \<and> checkers hm' (Name c) = Some (DatabaseHealthChecker (Name c) (master db))"
    by blast
  have n: "Name (example_config ''main'' []) = ''main''" by (simp add: example_config_def)
  have "snd (snd (NewManager ([example_config ''main'' []] @ example_config ''audit'' [] # [example_config ''logs'' []])
                      (unreachable [''audit-master'']) (Some example_health_manager))) = Some hm'"
    by (simp only: a snd_conv)
  moreover have "dom (checkers hm') = {''main''}"
    using b by (simp add: n example_health_manager_def health_NewManager_def)
  moreover have "checkers hm' ''main'' = Some (DatabaseHealthChecker ''main'' \<lparr>ConnPool = 0, Ctx = Background\<rparr>)"
    using c by (simp add: n Manager_Get_def)
  ultimately show ?thesis by blast
qed

end
